theory Spec2Isabelle
  imports Main "HOL-Library.AList"
begin

section \<open>Source text\<close>

text \<open>
  A Python \<open>str\<close> is a sequence of code points. The model is \<open>string\<close>, whose
  characters are the code points below 256; the library functions on text
  (\<open>str.splitlines\<close>, \<open>str.strip\<close>, \<open>str.startswith\<close>, \<open>str\<close> of an integer) are
  written out as the Python library defines them on that range.
\<close>

definition is_space :: "char \<Rightarrow> bool" where
  \<comment> \<open>\<open>str.isspace\<close> of one character: TAB, LF, VT, FF, CR, FS, GS, RS, US, space,
      NEL (0x85) and the no-break space (0xA0).\<close>
  "is_space c = (of_char c \<in> {9, 10, 11, 12, 13, 28, 29, 30, 31, 32, 133, 160 :: nat})"

definition is_linebreak :: "char \<Rightarrow> bool" where
  \<comment> \<open>the line boundaries of \<open>str.splitlines\<close>: LF, VT, FF, CR, FS, GS, RS and NEL.\<close>
  "is_linebreak c = (of_char c \<in> {10, 11, 12, 13, 28, 29, 30, 133 :: nat})"

fun splitlines_from :: "string \<Rightarrow> string \<Rightarrow> string list" where
  "splitlines_from cur [] = (if cur = [] then [] else [cur])"
| "splitlines_from cur [c] =
     (if is_linebreak c then [cur] else [cur @ [c]])"
| "splitlines_from cur (c # d # cs) =
     (if of_char c = (13::nat) \<and> of_char d = (10::nat) then cur # splitlines_from [] cs
      else if is_linebreak c then cur # splitlines_from [] (d # cs)
      else splitlines_from (cur @ [c]) (d # cs))"

definition splitlines :: "string \<Rightarrow> string list" where
  \<comment> \<open>\<open>str.splitlines()\<close>: the lines without their boundaries; CR LF is one boundary;
      no empty last line after a final boundary.\<close>
  "splitlines s = splitlines_from [] s"

definition strip :: "string \<Rightarrow> string" where
  \<comment> \<open>\<open>str.strip()\<close>: leading and trailing whitespace removed.\<close>
  "strip s = rev (dropWhile is_space (rev (dropWhile is_space s)))"

definition startswith :: "string \<Rightarrow> string \<Rightarrow> bool" where
  \<comment> \<open>\<open>s.startswith(p)\<close>\<close>
  "startswith s p = (take (length p) s = p)"

definition truthy :: "string \<Rightarrow> bool" where
  \<comment> \<open>the truth value of a \<open>str\<close>: non-empty.\<close>
  "truthy s = (s \<noteq> [])"

section \<open>Line counts of the metrics calculator\<close>

definition count_code_lines :: "string \<Rightarrow> nat" where
  \<comment> \<open>\<open>_count_code_lines\<close>: \<open>sum(1 for line in lines if line.strip() and not
      line.strip().startswith("#"))\<close>\<close>
  "count_code_lines source_code =
     (let lines = splitlines source_code
      in sum_list (map (\<lambda>line. 1)
           (filter (\<lambda>line. truthy (strip line) \<and> \<not> startswith (strip line) ''#'') lines)))"

definition count_comment_lines :: "string \<Rightarrow> nat" where
  \<comment> \<open>\<open>_count_comment_lines\<close>: \<open>sum(1 for line in lines if line.strip().startswith("#"))\<close>\<close>
  "count_comment_lines source_code =
     (let lines = splitlines source_code
      in sum_list (map (\<lambda>line. 1) (filter (\<lambda>line. startswith (strip line) ''#'') lines)))"

definition count_blank_lines :: "string \<Rightarrow> nat" where
  \<comment> \<open>\<open>_count_blank_lines\<close>: \<open>sum(1 for line in lines if not line.strip())\<close>\<close>
  "count_blank_lines source_code =
     (let lines = splitlines source_code
      in sum_list (map (\<lambda>line. 1) (filter (\<lambda>line. \<not> truthy (strip line)) lines)))"

definition total_lines_of :: "string \<Rightarrow> nat" where
  \<comment> \<open>\<open>len(self.source_code.splitlines())\<close>\<close>
  "total_lines_of source_code = length (splitlines source_code)"



section \<open>Rendering values as text\<close>

fun str_nat :: "nat \<Rightarrow> string" where
  "str_nat n =
     (if n < 10 then [''0123456789'' ! n] else str_nat (n div 10) @ [''0123456789'' ! (n mod 10)])"

declare str_nat.simps [simp del]

definition str_int :: "int \<Rightarrow> string" where
  \<comment> \<open>\<open>str(i)\<close> of an integer: decimal digits, with a minus sign below zero.\<close>
  "str_int i = (if i < 0 then CHR ''-'' # str_nat (nat (- i)) else str_nat (nat i))"

definition str_opt_int :: "int option \<Rightarrow> string" where
  \<comment> \<open>an integer or \<open>None\<close> inside an f-string.\<close>
  "str_opt_int x = (case x of None \<Rightarrow> ''None'' | Some i \<Rightarrow> str_int i)"

definition str_opt :: "string option \<Rightarrow> string" where
  \<comment> \<open>a string or \<open>None\<close> inside an f-string.\<close>
  "str_opt x = (case x of None \<Rightarrow> ''None'' | Some s \<Rightarrow> s)"

definition is_digit :: "char \<Rightarrow> bool" where
  "is_digit c = (48 \<le> (of_char c :: nat) \<and> (of_char c :: nat) \<le> 57)"

definition lower_char :: "char \<Rightarrow> char" where
  \<comment> \<open>case folding of the letters A to Z.\<close>
  "lower_char c =
     (case map_of (zip ''ABCDEFGHIJKLMNOPQRSTUVWXYZ'' ''abcdefghijklmnopqrstuvwxyz'') c of
        Some l \<Rightarrow> l | None \<Rightarrow> c)"

definition upper_char :: "char \<Rightarrow> char" where
  "upper_char c =
     (case map_of (zip ''abcdefghijklmnopqrstuvwxyz'' ''ABCDEFGHIJKLMNOPQRSTUVWXYZ'') c of
        Some u \<Rightarrow> u | None \<Rightarrow> c)"

definition upper :: "string \<Rightarrow> string" where
  \<comment> \<open>\<open>str.upper()\<close> on the letters a to z; the source applies it to \<open>md5\<close> and \<open>sha1\<close> only.\<close>
  "upper s = map upper_char s"

section \<open>JSON values\<close>

text \<open>
  The dictionaries and lists that the analyzer hands to the JSON encoder. A dictionary
  keeps its keys in insertion order; assigning to a key that is present replaces the
  value in place (\<open>AList.update\<close>).
\<close>

datatype json = JNull | JBool bool | JInt int | JStr string | JList "json list"
  | JDict "(string \<times> json) list"

definition dict_get :: "json \<Rightarrow> string \<Rightarrow> json option" where
  \<comment> \<open>the value under a key of a dictionary, \<open>None\<close> for an absent key.\<close>
  "dict_get d k = (case d of JDict kvs \<Rightarrow> map_of kvs k | _ \<Rightarrow> None)"


section \<open>The syntax tree\<close>

text \<open>
  The tree that the parsing front-end (\<open>ast.parse\<close>) builds. The classes whose fields
  the analyzer or the scanner read have a constructor of their own, with the fields that
  the grammar of the \<open>ast\<close> module (Python 3.10 and 3.11) declares for them, in the order of
  \<open>_fields\<close>; a position is the pair of \<open>lineno\<close> and \<open>col_offset\<close>. Every other class is
  \<open>Other\<close>: the class name, the position when the class has one, and the fields in
  order. \<open>arguments\<close>, \<open>arg\<close>, \<open>keyword\<close> and \<open>alias\<close> objects are nodes as well (the walk
  visits them); where a parent holds them, it holds their fields, and \<open>iter_fields\<close>
  hands them out as nodes. The name of an \<open>Other\<close> node is the name of a class that has
  no constructor of its own (\<open>Module\<close>, \<open>If\<close>, \<open>For\<close>, \<open>JoinedStr\<close>, \<open>Add\<close>, \<open>Load\<close> and so on).
  So the tree is typed as the grammar types it: a \<open>Call\<close> has its \<open>func\<close>, a \<open>keyword\<close> its
  \<open>arg\<close> and \<open>value\<close>, and no read of a declared field can fail.
\<close>

datatype const = CNone | CBool bool | CInt int | CStr string | COther string
  \<comment> \<open>the value of a \<open>Constant\<close> or of a plain field; \<open>COther\<close> carries the \<open>str()\<close> text of a
      value of any other type (float, complex, bytes, Ellipsis).\<close>

type_synonym pos = "int \<times> int"
  \<comment> \<open>\<open>lineno\<close>, \<open>col_offset\<close>\<close>
type_synonym import_alias = "pos \<times> string \<times> string option"
  \<comment> \<open>\<open>alias\<close>: position, \<open>name\<close>, \<open>asname\<close>\<close>
type_synonym 'n arg = "pos \<times> string \<times> 'n option \<times> string option"
  \<comment> \<open>\<open>arg\<close>: position, \<open>arg\<close>, \<open>annotation\<close>, \<open>type_comment\<close>\<close>
type_synonym 'n keyword = "pos \<times> string option \<times> 'n"
  \<comment> \<open>\<open>keyword\<close>: position, \<open>arg\<close>, \<open>value\<close>\<close>
type_synonym 'n arguments =
  "'n arg list \<times> 'n arg list \<times> 'n arg option \<times> 'n arg list \<times> 'n option list
     \<times> 'n arg option \<times> 'n list"
  \<comment> \<open>\<open>arguments\<close>: \<open>posonlyargs\<close>, \<open>args\<close>, \<open>vararg\<close>, \<open>kwonlyargs\<close>, \<open>kw_defaults\<close>, \<open>kwarg\<close>,
      \<open>defaults\<close>\<close>

datatype node =
    FunctionDef pos string "node arguments" "node list" "node list" "node option" "string option"
  | ClassDef pos string "node list" "node keyword list" "node list" "node list"
  | Import pos "import_alias list"
  | ImportFrom pos "string option" "import_alias list" "int option"
  | Expr pos node
  | Call pos node "node list" "node keyword list"
  | Name pos string node
  | Attribute pos node string node
  | Constant pos const "string option"
  | BinOp pos node node node
  | Arguments "node arg list" "node arg list" "node arg option" "node arg list"
      "node option list" "node arg option" "node list"
  | Arg pos string "node option" "string option"
  | Keyword pos "string option" node
  | Alias pos string "string option"
  | Other string "pos option" "(string \<times> fval) list"
and fval = FNode node | FList "item list" | FPrim const
and item = INode node | IStr string | INone


definition arg_node :: "node arg \<Rightarrow> node" where
  "arg_node a = (case a of (p, name, annotation, type_comment) \<Rightarrow> Arg p name annotation type_comment)"

definition keyword_node :: "node keyword \<Rightarrow> node" where
  "keyword_node k = (case k of (p, name, v) \<Rightarrow> Keyword p name v)"

definition alias_node :: "import_alias \<Rightarrow> node" where
  "alias_node a = (case a of (p, name, asname) \<Rightarrow> Alias p name asname)"

definition arguments_node :: "node arguments \<Rightarrow> node" where
  "arguments_node a =
     (case a of (posonlyargs, args, vararg, kwonlyargs, kw_defaults, kwarg, defaults) \<Rightarrow>
        Arguments posonlyargs args vararg kwonlyargs kw_defaults kwarg defaults)"

definition opt_node :: "node option \<Rightarrow> fval" where
  "opt_node x = (case x of None \<Rightarrow> FPrim CNone | Some n \<Rightarrow> FNode n)"

definition opt_str :: "string option \<Rightarrow> fval" where
  "opt_str x = (case x of None \<Rightarrow> FPrim CNone | Some s \<Rightarrow> FPrim (CStr s))"

definition opt_int :: "int option \<Rightarrow> fval" where
  "opt_int x = (case x of None \<Rightarrow> FPrim CNone | Some i \<Rightarrow> FPrim (CInt i))"

definition opt_item :: "node option \<Rightarrow> item" where
  "opt_item x = (case x of None \<Rightarrow> INone | Some n \<Rightarrow> INode n)"

fun iter_fields :: "node \<Rightarrow> (string \<times> fval) list" where
  \<comment> \<open>\<open>ast.iter_fields(node)\<close>: the fields of \<open>node._fields\<close> with their values, in order.\<close>
  "iter_fields (FunctionDef p name args body decorator_list returns type_comment) =
     [(''name'', FPrim (CStr name)), (''args'', FNode (arguments_node args)),
      (''body'', FList (map INode body)), (''decorator_list'', FList (map INode decorator_list)),
      (''returns'', opt_node returns), (''type_comment'', opt_str type_comment)]"
| "iter_fields (ClassDef p name bases keywords body decorator_list) =
     [(''name'', FPrim (CStr name)), (''bases'', FList (map INode bases)),
      (''keywords'', FList (map (INode \<circ> keyword_node) keywords)),
      (''body'', FList (map INode body)), (''decorator_list'', FList (map INode decorator_list))]"
| "iter_fields (Import p names) = [(''names'', FList (map (INode \<circ> alias_node) names))]"
| "iter_fields (ImportFrom p module names level) =
     [(''module'', opt_str module), (''names'', FList (map (INode \<circ> alias_node) names)),
      (''level'', opt_int level)]"
| "iter_fields (Expr p v) = [(''value'', FNode v)]"
| "iter_fields (Call p func args keywords) =
     [(''func'', FNode func), (''args'', FList (map INode args)),
      (''keywords'', FList (map (INode \<circ> keyword_node) keywords))]"
| "iter_fields (Name p ident ctx) = [(''id'', FPrim (CStr ident)), (''ctx'', FNode ctx)]"
| "iter_fields (Attribute p v attr ctx) =
     [(''value'', FNode v), (''attr'', FPrim (CStr attr)), (''ctx'', FNode ctx)]"
| "iter_fields (Constant p v kind) = [(''value'', FPrim v), (''kind'', opt_str kind)]"
| "iter_fields (BinOp p left op right) =
     [(''left'', FNode left), (''op'', FNode op), (''right'', FNode right)]"
| "iter_fields (Arguments posonlyargs args vararg kwonlyargs kw_defaults kwarg defaults) =
     [(''posonlyargs'', FList (map (INode \<circ> arg_node) posonlyargs)),
      (''args'', FList (map (INode \<circ> arg_node) args)),
      (''vararg'', opt_node (map_option arg_node vararg)),
      (''kwonlyargs'', FList (map (INode \<circ> arg_node) kwonlyargs)),
      (''kw_defaults'', FList (map opt_item kw_defaults)),
      (''kwarg'', opt_node (map_option arg_node kwarg)),
      (''defaults'', FList (map INode defaults))]"
| "iter_fields (Arg p name annotation type_comment) =
     [(''arg'', FPrim (CStr name)), (''annotation'', opt_node annotation),
      (''type_comment'', opt_str type_comment)]"
| "iter_fields (Keyword p name v) = [(''arg'', opt_str name), (''value'', FNode v)]"
| "iter_fields (Alias p name asname) = [(''name'', FPrim (CStr name)), (''asname'', opt_str asname)]"
| "iter_fields (Other cls p fs) = fs"

fun item_nodes :: "item \<Rightarrow> node list" where
  "item_nodes (INode n) = [n]"
| "item_nodes (IStr s) = []"
| "item_nodes INone = []"

fun fval_nodes :: "fval \<Rightarrow> node list" where
  "fval_nodes (FNode n) = [n]"
| "fval_nodes (FList items) = concat (map item_nodes items)"
| "fval_nodes (FPrim c) = []"

definition iter_child_nodes :: "node \<Rightarrow> node list" where
  \<comment> \<open>\<open>ast.iter_child_nodes(node)\<close>: the fields that are nodes and the nodes in the fields
      that are lists, in the order of the fields.\<close>
  "iter_child_nodes n = concat (map (\<lambda>(name, field). fval_nodes field) (iter_fields n))"

text \<open>A child is smaller than its parent: the measure behind every recursion on the tree.\<close>

fun msize :: "node \<Rightarrow> nat" where
  "msize (Alias p name asname) = 0"
| "msize n = Suc (size n)"

lemma in_nodes_size: "x \<in> set xs \<Longrightarrow> size (x::node) < Suc (size_list size xs)"
  by (induction xs) auto

lemma in_opts_size: "Some x \<in> set xs \<Longrightarrow> size (x::node) < size_list (size_option size) xs"
  by (induction xs) auto

lemma in_kws_size:
  "(p, a, v) \<in> set ks \<Longrightarrow>
     size (v::node) < size_list (size_prod (\<lambda>x. 0) (size_prod (\<lambda>x. 0) size)) ks"
  by (induction ks) auto

lemma in_args_size:
  "(p, a, ann, tc) \<in> set xs \<Longrightarrow>
     size_option size (ann :: node option)
       < size_list (size_prod (\<lambda>x. 0) (size_prod (\<lambda>x. 0) (size_prod (size_option size) (\<lambda>x. 0)))) xs"
  by (induction xs) auto

lemma in_items_size:
  "it \<in> set items \<Longrightarrow> c \<in> set (item_nodes it) \<Longrightarrow> size (c::node) < Suc (size_list size items)"
proof (induction items)
  case Nil
  then show ?case by simp
next
  case (Cons a items)
  show ?case
  proof (cases "it = a")
    case True
    with Cons.prems(2) show ?thesis by (cases a) auto
  next
    case False
    with Cons show ?thesis by auto
  qed
qed

lemma in_fval_size: "c \<in> set (fval_nodes f) \<Longrightarrow> size (c::node) < Suc (size f)"
proof (cases f)
  case (FList items)
  assume "c \<in> set (fval_nodes f)"
  with FList obtain it where "it \<in> set items" "c \<in> set (item_nodes it)" by auto
  then have "size c < Suc (size_list size items)" by (rule in_items_size)
  with FList show ?thesis by simp
qed auto

lemma in_fields_size:
  "(name, f) \<in> set fs \<Longrightarrow> c \<in> set (fval_nodes f) \<Longrightarrow>
     size (c::node) < size_list (size_prod (\<lambda>x. 0) size) fs"
proof (induction fs)
  case Nil
  then show ?case by simp
next
  case (Cons a fs)
  show ?case
  proof (cases "(name, f) = a")
    case True
    with in_fval_size [OF Cons.prems(2)] show ?thesis by auto
  next
    case False
    with Cons show ?thesis by fastforce
  qed
qed

lemma child_size:
  "c \<in> set (iter_child_nodes n) \<Longrightarrow>
     size c < size n \<or> (\<exists>p na as. c = Alias p na as)"
  by (cases n)
     (auto simp: iter_child_nodes_def arguments_node_def keyword_node_def alias_node_def
        arg_node_def opt_node_def opt_item_def opt_str_def opt_int_def
      split: option.splits prod.splits
      dest: in_nodes_size in_opts_size in_kws_size in_args_size in_fields_size)

lemma no_child_of_alias: "iter_child_nodes (Alias p na as) = []"
  by (simp add: iter_child_nodes_def opt_str_def split: option.splits)

lemma child_msize: "c \<in> set (iter_child_nodes n) \<Longrightarrow> msize c < msize n"
proof -
  assume a: "c \<in> set (iter_child_nodes n)"
  then have n: "msize n = Suc (size n)" by (cases n) (simp_all add: no_child_of_alias)
  from child_size [OF a] show ?thesis
  proof
    assume "size c < size n"
    moreover have "msize c \<le> Suc (size c)" by (cases c) simp_all
    ultimately show ?thesis using n by simp
  next
    assume "\<exists>p na as. c = Alias p na as"
    then show ?thesis using n by auto
  qed
qed


function node_count :: "node \<Rightarrow> nat" where
  \<comment> \<open>the number of nodes of a tree, by which the queue of the walk shrinks.\<close>
  "node_count n = Suc (sum_list (map node_count (iter_child_nodes n)))"
  by pat_completeness auto
termination
  by (relation "measure msize") (auto dest: child_msize)

declare node_count.simps [simp del]

text \<open>
  \<open>ast.walk(node)\<close> keeps a queue, first the node alone; it takes the first node off the
  queue, puts the children of that node at the end, and yields the node, until the queue
  is empty: breadth first.
\<close>

function walk_queue :: "node list \<Rightarrow> node list" where
  "walk_queue [] = []"
| "walk_queue (node # todo) = node # walk_queue (todo @ iter_child_nodes node)"
  by pat_completeness auto
termination
proof (relation "measure (\<lambda>todo. sum_list (map node_count todo))")
  show "wf (measure (\<lambda>todo. sum_list (map node_count todo)))" by simp
next
  fix node :: node and todo :: "node list"
  show "(todo @ iter_child_nodes node, node # todo) \<in> measure (\<lambda>todo. sum_list (map node_count todo))"
    by (simp add: node_count.simps [of node])
qed

definition walk :: "node \<Rightarrow> node list" where
  "walk node = walk_queue [node]"

fun is_nesting :: "node \<Rightarrow> bool" where
  \<comment> \<open>\<open>isinstance(child, (ast.If, ast.For, ast.While, ast.With, ast.Try, ast.FunctionDef,
      ast.ClassDef))\<close>\<close>
  "is_nesting (FunctionDef p name args body decorator_list returns type_comment) = True"
| "is_nesting (ClassDef p name bases keywords body decorator_list) = True"
| "is_nesting (Other cls p fs) = (cls \<in> set [''If'', ''For'', ''While'', ''With'', ''Try''])"
| "is_nesting n = False"

function calculate_max_depth :: "node \<Rightarrow> nat \<Rightarrow> nat" where
  \<comment> \<open>\<open>_calculate_max_depth(node, current_depth)\<close>; the depth starts at 0 and only grows.\<close>
  "calculate_max_depth node current_depth =
     foldl (\<lambda>max_depth child.
              if is_nesting child
              then max max_depth (calculate_max_depth child (current_depth + 1))
              else max max_depth (calculate_max_depth child current_depth))
       current_depth (iter_child_nodes node)"
  by pat_completeness auto
termination
  by (relation "measure (\<lambda>(node, d). msize node)") (auto dest: child_msize)

declare calculate_max_depth.simps [simp del]

text \<open>
  The specification's side of the nesting depth: the paths from a node down to each node
  of its tree, and the number of nesting nodes met on a path below its first node.
\<close>

function root_paths :: "node \<Rightarrow> node list list" where
  "root_paths n = [n] # concat (map (\<lambda>c. map ((#) n) (root_paths c)) (iter_child_nodes n))"
  by pat_completeness auto
termination
  by (relation "measure msize") (auto dest: child_msize)

declare root_paths.simps [simp del]

definition nesting_on_path :: "node list \<Rightarrow> nat" where
  "nesting_on_path p = length (filter is_nesting (tl p))"


section \<open>The analyzer\<close>

definition class_name :: "node \<Rightarrow> string" where
  \<comment> \<open>\<open>node.__class__.__name__\<close>\<close>
  "class_name node =
     (case node of
        FunctionDef p name args body decorator_list returns type_comment \<Rightarrow> ''FunctionDef''
      | ClassDef p name bases keywords body decorator_list \<Rightarrow> ''ClassDef''
      | Import p names \<Rightarrow> ''Import''
      | ImportFrom p module names level \<Rightarrow> ''ImportFrom''
      | Expr p v \<Rightarrow> ''Expr''
      | Call p func args keywords \<Rightarrow> ''Call''
      | Name p ident ctx \<Rightarrow> ''Name''
      | Attribute p v attr ctx \<Rightarrow> ''Attribute''
      | Constant p v kind \<Rightarrow> ''Constant''
      | BinOp p left op right \<Rightarrow> ''BinOp''
      | Arguments posonlyargs args vararg kwonlyargs kw_defaults kwarg defaults \<Rightarrow> ''arguments''
      | Arg p name annotation type_comment \<Rightarrow> ''arg''
      | Keyword p name v \<Rightarrow> ''keyword''
      | Alias p name asname \<Rightarrow> ''alias''
      | Other cls p fs \<Rightarrow> cls)"

definition node_pos :: "node \<Rightarrow> pos option" where
  \<comment> \<open>the attributes \<open>lineno\<close> and \<open>col_offset\<close>, for the classes that have them.\<close>
  "node_pos node =
     (case node of
        FunctionDef p name args body decorator_list returns type_comment \<Rightarrow> Some p
      | ClassDef p name bases keywords body decorator_list \<Rightarrow> Some p
      | Import p names \<Rightarrow> Some p
      | ImportFrom p module names level \<Rightarrow> Some p
      | Expr p v \<Rightarrow> Some p
      | Call p func args keywords \<Rightarrow> Some p
      | Name p ident ctx \<Rightarrow> Some p
      | Attribute p v attr ctx \<Rightarrow> Some p
      | Constant p v kind \<Rightarrow> Some p
      | BinOp p left op right \<Rightarrow> Some p
      | Arguments posonlyargs args vararg kwonlyargs kw_defaults kwarg defaults \<Rightarrow> None
      | Arg p name annotation type_comment \<Rightarrow> Some p
      | Keyword p name v \<Rightarrow> Some p
      | Alias p name asname \<Rightarrow> Some p
      | Other cls p fs \<Rightarrow> p)"

definition isinstance_of :: "node \<Rightarrow> string \<Rightarrow> bool" where
  \<comment> \<open>\<open>isinstance(node, ast.C)\<close> for a class \<open>C\<close> that has no constructor of its own.\<close>
  "isinstance_of node cls = (case node of Other c p fs \<Rightarrow> c = cls | _ \<Rightarrow> False)"

definition has_docstring :: "node list \<Rightarrow> bool" where
  \<comment> \<open>\<open>ast.get_docstring(node) is not None\<close> for a node with this body: the first
      statement is an expression statement whose value is a string constant.\<close>
  "has_docstring body =
     (case body of
        [] \<Rightarrow> False
      | first # rest \<Rightarrow>
          (case first of
             Expr p v \<Rightarrow> (case v of Constant q c kind \<Rightarrow> (case c of CStr s \<Rightarrow> True | _ \<Rightarrow> False)
                          | _ \<Rightarrow> False)
           | _ \<Rightarrow> False))"

text \<open>
  The parsing front-end is outside the analyzer: \<open>ast.parse\<close> returns a tree or raises.
  Its exceptions are a \<open>SyntaxError\<close>, with its \<open>lineno\<close> (which may be \<open>None\<close>) and its
  \<open>msg\<close>, or an exception of another class, of which \<open>parse\<close> reads only the text
  \<open>str(e)\<close> (a \<open>ValueError\<close> for a null byte in the source, for one).
\<close>

datatype parse_exception = SyntaxError "int option" string | OtherException string

datatype parse_outcome = Parsed node | Raised parse_exception

text \<open>\<open>ASTAnalyzer\<close>: the attributes that \<open>__init__\<close> sets.\<close>

record analyzer =
  source_code :: string
  tree :: "node option"
  errors :: "string list"

definition init_analyzer :: "string \<Rightarrow> analyzer" where
  \<comment> \<open>\<open>ASTAnalyzer(source_code)\<close>\<close>
  "init_analyzer src = \<lparr>source_code = src, tree = None, errors = []\<rparr>"

definition parse :: "(string \<Rightarrow> parse_outcome) \<Rightarrow> analyzer \<Rightarrow> bool \<times> analyzer" where
  \<comment> \<open>\<open>ASTAnalyzer.parse\<close>: the returned flag and the analyzer after the call.\<close>
  "parse ast_parse self =
     (case ast_parse (source_code self) of
        Parsed t \<Rightarrow> (True, self\<lparr>tree := Some t\<rparr>)
      | Raised e \<Rightarrow>
          (case e of
             SyntaxError e_lineno e_msg \<Rightarrow>
               (False, self\<lparr>errors := errors self
                  @ [''Syntax error at line '' @ str_opt_int e_lineno @ '': '' @ e_msg]\<rparr>)
           | OtherException e_str \<Rightarrow>
               (False, self\<lparr>errors := errors self @ [''Parse error: '' @ e_str]\<rparr>)))"

text \<open>
  The local dictionary \<open>structure\<close> of \<open>get_structure\<close>, with its four lists, and the
  body of its loop over the walk.
\<close>

record structure_report =
  s_functions :: "json list"
  s_classes :: "json list"
  s_imports :: "json list"
  s_globals :: "json list"

definition json_opt_str :: "string option \<Rightarrow> json" where
  \<comment> \<open>a string or \<open>None\<close> as a JSON value.\<close>
  "json_opt_str x = (case x of None \<Rightarrow> JNull | Some s \<Rightarrow> JStr s)"

definition arg_name :: "node arg \<Rightarrow> string" where
  \<comment> \<open>\<open>arg.arg\<close>\<close>
  "arg_name a = (case a of (p, name, annotation, type_comment) \<Rightarrow> name)"

definition arguments_args :: "node arguments \<Rightarrow> node arg list" where
  \<comment> \<open>\<open>node.args.args\<close>\<close>
  "arguments_args a =
     (case a of (posonlyargs, args, vararg, kwonlyargs, kw_defaults, kwarg, defaults) \<Rightarrow> args)"

definition method_names :: "node list \<Rightarrow> string list" where
  \<comment> \<open>\<open>[item.name for item in node.body if isinstance(item, ast.FunctionDef)]\<close>\<close>
  "method_names body =
     concat (map (\<lambda>item. case item of
                     FunctionDef p name args b decorator_list returns type_comment \<Rightarrow> [name]
                   | _ \<Rightarrow> []) body)"

definition structure_step :: "(node \<Rightarrow> string) \<Rightarrow> structure_report \<Rightarrow> node \<Rightarrow> structure_report" where
  "structure_step unparse s node =
     (case node of
        FunctionDef p name args body decorator_list returns type_comment \<Rightarrow>
          s\<lparr>s_functions := s_functions s @
            [JDict [(''name'', JStr name),
                    (''lineno'', JInt (fst p)),
                    (''args'', JList (map (\<lambda>a. JStr (arg_name a)) (arguments_args args))),
                    (''returns'', json_opt_str (map_option unparse returns)),
                    (''decorators'', JList (map (\<lambda>d. JStr (unparse d)) decorator_list)),
                    (''has_docstring'', JBool (has_docstring body))]]\<rparr>
      | ClassDef p name bases keywords body decorator_list \<Rightarrow>
          s\<lparr>s_classes := s_classes s @
            [JDict [(''name'', JStr name),
                    (''lineno'', JInt (fst p)),
                    (''bases'', JList (map (\<lambda>base. JStr (unparse base)) bases)),
                    (''methods'', JList (map JStr (method_names body))),
                    (''has_docstring'', JBool (has_docstring body))]]\<rparr>
      | Import p names \<Rightarrow>
          foldl (\<lambda>s alias. case alias of (q, alias_name, alias_asname) \<Rightarrow>
                   s\<lparr>s_imports := s_imports s @
                     [JDict [(''module'', JStr alias_name),
                             (''alias'', json_opt_str alias_asname),
                             (''lineno'', JInt (fst p))]]\<rparr>) s names
      | ImportFrom p module names level \<Rightarrow>
          foldl (\<lambda>s alias. case alias of (q, alias_name, alias_asname) \<Rightarrow>
                   s\<lparr>s_imports := s_imports s @
                     [JDict [(''module'', JStr (str_opt module @ ''.'' @ alias_name)),
                             (''alias'', json_opt_str alias_asname),
                             (''lineno'', JInt (fst p))]]\<rparr>) s names
      | _ \<Rightarrow> s)"

definition get_structure :: "(node \<Rightarrow> string) \<Rightarrow> analyzer \<Rightarrow> json" where
  \<comment> \<open>\<open>ASTAnalyzer.get_structure\<close>, with \<open>ast.unparse\<close> as a parameter.\<close>
  "get_structure unparse self =
     (case tree self of
        None \<Rightarrow> JDict [(''error'', JStr ''No AST available. Call parse() first.'')]
      | Some t \<Rightarrow>
          (let s = foldl (structure_step unparse)
                     \<lparr>s_functions = [], s_classes = [], s_imports = [], s_globals = []\<rparr> (walk t)
           in JDict [(''functions'', JList (s_functions s)), (''classes'', JList (s_classes s)),
                     (''imports'', JList (s_imports s)), (''globals'', JList (s_globals s))]))"

text \<open>The local dictionary \<open>metrics\<close> of \<open>get_metrics\<close> and the body of its loop.\<close>

record metrics =
  total_lines :: nat
  code_lines :: nat
  comment_lines :: nat
  blank_lines :: nat
  function_count :: nat
  class_count :: nat
  import_count :: nat
  max_nesting_depth :: nat

definition metrics_step :: "metrics \<Rightarrow> node \<Rightarrow> metrics" where
  "metrics_step m node =
     (case node of
        FunctionDef p name args body decorator_list returns type_comment \<Rightarrow>
          m\<lparr>function_count := function_count m + 1\<rparr>
      | ClassDef p name bases keywords body decorator_list \<Rightarrow>
          m\<lparr>class_count := class_count m + 1\<rparr>
      | Import p names \<Rightarrow> m\<lparr>import_count := import_count m + 1\<rparr>
      | ImportFrom p module names level \<Rightarrow> m\<lparr>import_count := import_count m + 1\<rparr>
      | _ \<Rightarrow> m)"

definition get_metrics :: "analyzer \<Rightarrow> json" where
  \<comment> \<open>\<open>ASTAnalyzer.get_metrics\<close>\<close>
  "get_metrics self =
     (case tree self of
        None \<Rightarrow> JDict [(''error'', JStr ''No AST available'')]
      | Some t \<Rightarrow>
          (let m = \<lparr>total_lines = total_lines_of (source_code self),
                    code_lines = count_code_lines (source_code self),
                    comment_lines = count_comment_lines (source_code self),
                    blank_lines = count_blank_lines (source_code self),
                    function_count = 0, class_count = 0, import_count = 0,
                    max_nesting_depth = 0\<rparr>;
               m = foldl metrics_step m (walk t);
               m = m\<lparr>max_nesting_depth := calculate_max_depth t 0\<rparr>
           in JDict [(''total_lines'', JInt (int (total_lines m))),
                     (''code_lines'', JInt (int (code_lines m))),
                     (''comment_lines'', JInt (int (comment_lines m))),
                     (''blank_lines'', JInt (int (blank_lines m))),
                     (''function_count'', JInt (int (function_count m))),
                     (''class_count'', JInt (int (class_count m))),
                     (''import_count'', JInt (int (import_count m))),
                     (''max_nesting_depth'', JInt (int (max_nesting_depth m)))]))"

text \<open>
  The interpreter that runs the analyzer, as far as the analyzer can see it: its limit on
  the digits of an integer that \<open>str\<close> renders (\<open>sys.get_int_max_str_digits()\<close>, 4300 unless
  set otherwise, 0 for no limit); the number of nested calls of a recursive function
  that its stack has room for, and the text of the \<open>RecursionError\<close> beyond that; and the
  exception, if any, of the JSON coder on a value (\<open>json.dumps\<close>, and \<open>json.loads\<close> of its
  text), which is a \<open>RecursionError\<close> of its own on a value nested too deep.
\<close>

record interpreter =
  int_max_str_digits :: nat
  recursion_limit :: nat
  recursion_error :: string
  json_raises :: "json \<Rightarrow> string option"

definition int_str :: "interpreter \<Rightarrow> int \<Rightarrow> string + string" where
  \<comment> \<open>\<open>str(i)\<close> of an \<open>int\<close>: a \<open>ValueError\<close> when \<open>i\<close> has more decimal digits than the limit.\<close>
  "int_str py i =
     (if 0 < int_max_str_digits py \<and> 10 ^ int_max_str_digits py \<le> abs i
      then Inl (''Exceeds the limit ('' @ str_nat (int_max_str_digits py)
                 @ '' digits) for integer string conversion; ''
                 @ ''use sys.set_int_max_str_digits() to increase the limit'')
      else Inr (str_int i))"

definition str_const :: "interpreter \<Rightarrow> const \<Rightarrow> string + string" where
  \<comment> \<open>\<open>str(value)\<close> of a field value that is not \<open>None\<close>: the text, or the text of the
      exception that \<open>str\<close> raises.\<close>
  "str_const py c =
     (case c of CNone \<Rightarrow> Inr ''None'' | CBool b \<Rightarrow> Inr (if b then ''True'' else ''False'')
      | CInt i \<Rightarrow> int_str py i | CStr s \<Rightarrow> Inr s | COther s \<Rightarrow> Inr s)"

fun collect :: "('e + 'a) list \<Rightarrow> 'e + 'a list" where
  \<comment> \<open>the values of a sequence of computations in order, or the first exception.\<close>
  "collect [] = Inr []"
| "collect (x # xs) =
     (case x of
        Inl e \<Rightarrow> Inl e
      | Inr v \<Rightarrow> (case collect xs of Inl e \<Rightarrow> Inl e | Inr vs \<Rightarrow> Inr (v # vs)))"

lemma field_child:
  "(name, v) \<in> set (iter_fields node) \<Longrightarrow> c \<in> set (fval_nodes v) \<Longrightarrow>
     c \<in> set (iter_child_nodes node)"
  by (auto simp: iter_child_nodes_def)

lemma field_list_child_msize:
  "(name, FList items) \<in> set (iter_fields node) \<Longrightarrow> INode c \<in> set items \<Longrightarrow>
     msize c < msize node"
  by (rule child_msize, rule field_child [where v = "FList items"]) force+

lemma field_node_child_msize:
  "(name, FNode c) \<in> set (iter_fields node) \<Longrightarrow> msize c < msize node"
  by (rule child_msize, rule field_child [where v = "FNode c"]) force+

function ast_to_dict :: "interpreter \<Rightarrow> nat \<Rightarrow> node \<Rightarrow> string + json" where
  \<comment> \<open>\<open>_ast_to_dict\<close>, called inside \<open>depth\<close> calls of itself: the keys \<open>type\<close>, \<open>lineno\<close> and
      \<open>col_offset\<close>, then one assignment for each field, in order. The result is the
      dictionary, or the text of the first exception: the \<open>RecursionError\<close> of a call
      that the stack has no room for, or the \<open>ValueError\<close> of \<open>str(value)\<close>.\<close>
  "ast_to_dict py depth node =
     (if recursion_limit py \<le> depth then Inl (recursion_error py)
      else
        (let result = [(''type'', JStr (class_name node))];
             result = (case node_pos node of
                         None \<Rightarrow> result
                       | Some p \<Rightarrow> AList.update ''col_offset'' (JInt (snd p))
                                    (AList.update ''lineno'' (JInt (fst p)) result))
         in map_sum id
              (\<lambda>assigned. JDict (foldl (\<lambda>result fv. AList.update (fst fv) (snd fv) result)
                                   result assigned))
              (collect
                 (map (\<lambda>(field, val).
                         map_sum id (Pair field)
                           (case val of
                              FList items \<Rightarrow>
                                map_sum id JList
                                  (collect
                                     (map (\<lambda>item. case item of
                                                      INode n \<Rightarrow> ast_to_dict py (Suc depth) n
                                                    | IStr s \<Rightarrow> Inr (JStr s)
                                                    | INone \<Rightarrow> Inr JNull) items))
                            | FNode n \<Rightarrow> ast_to_dict py (Suc depth) n
                            | FPrim c \<Rightarrow>
                                (if c \<noteq> CNone then map_sum id JStr (str_const py c)
                                 else Inr JNull)))
                    (iter_fields node)))))"
  by pat_completeness auto
termination
  by (relation "measure (\<lambda>(py, depth, node). msize node)")
     (auto intro: field_list_child_msize field_node_child_msize)

declare ast_to_dict.simps [simp del]

definition get_ast_json :: "interpreter \<Rightarrow> analyzer \<Rightarrow> string + json" where
  \<comment> \<open>\<open>get_ast_json\<close>: the value whose JSON text is returned, or the text of the exception
      that \<open>_ast_to_dict\<close> or \<open>json.dumps\<close> raises.\<close>
  "get_ast_json py self =
     (case tree self of
        None \<Rightarrow> Inr (JDict [(''error'', JStr ''No AST available'')])
      | Some t \<Rightarrow>
          (case ast_to_dict py 0 t of
             Inl e \<Rightarrow> Inl e
           | Inr d \<Rightarrow> (case json_raises py d of Some e \<Rightarrow> Inl e | None \<Rightarrow> Inr d)))"

text \<open>
  The two other stages of \<open>analyze_code\<close> with their exceptions. \<open>get_structure\<close> itself
  raises nothing; it passes on what \<open>ast.unparse\<close> raises, which it calls on the return
  annotation and the decorators of each function and on the bases of each class of the
  walk, in this order. \<open>get_metrics\<close> raises when \<open>_calculate_max_depth\<close> nests deeper
  than the stack has room for: it calls itself once for each node of a path from the
  root.
\<close>

definition unparse_calls :: "node \<Rightarrow> node list" where
  \<comment> \<open>the arguments of the calls of \<open>ast.unparse\<close> in \<open>get_structure\<close>, in order.\<close>
  "unparse_calls t =
     concat (map (\<lambda>node. case node of
                     FunctionDef p name args body decorator_list returns type_comment \<Rightarrow>
                       (case returns of None \<Rightarrow> [] | Some r \<Rightarrow> [r]) @ decorator_list
                   | ClassDef p name bases keywords body decorator_list \<Rightarrow> bases
                   | _ \<Rightarrow> []) (walk t))"

definition rendered :: "(node \<Rightarrow> string + string) \<Rightarrow> node \<Rightarrow> string" where
  \<comment> \<open>the text that a call of \<open>ast.unparse\<close> returns, where it returns.\<close>
  "rendered unparse n = (case unparse n of Inl e \<Rightarrow> [] | Inr s \<Rightarrow> s)"

definition structure_stage :: "(node \<Rightarrow> string + string) \<Rightarrow> analyzer \<Rightarrow> string + json" where
  "structure_stage unparse self =
     (case collect (map unparse (case tree self of None \<Rightarrow> [] | Some t \<Rightarrow> unparse_calls t)) of
        Inl e \<Rightarrow> Inl e
      | Inr texts \<Rightarrow> Inr (get_structure (rendered unparse) self))"

function call_depth :: "node \<Rightarrow> nat" where
  \<comment> \<open>the number of calls of \<open>_calculate_max_depth\<close> that are nested at most when it runs on
      a node: the call on the node and the deepest nesting among its children.\<close>
  "call_depth node = Suc (foldl (\<lambda>deepest child. max deepest (call_depth child)) 0
                            (iter_child_nodes node))"
  by pat_completeness auto
termination
  by (relation "measure msize") (auto dest: child_msize)

declare call_depth.simps [simp del]

definition metrics_stage :: "interpreter \<Rightarrow> analyzer \<Rightarrow> string + json" where
  "metrics_stage py self =
     (case tree self of
        None \<Rightarrow> Inr (get_metrics self)
      | Some t \<Rightarrow>
          (if recursion_limit py < call_depth t then Inl (recursion_error py)
           else Inr (get_metrics self)))"

definition analyze_code ::
  "(string \<Rightarrow> parse_outcome) \<Rightarrow> (node \<Rightarrow> string + string) \<Rightarrow> interpreter \<Rightarrow> string \<Rightarrow> json" where
  \<comment> \<open>\<open>analyze_code\<close>: the dictionary whose JSON text is returned. The front-end
      \<open>ast.parse\<close>, the renderer \<open>ast.unparse\<close> and the interpreter are parameters. The three
      stages and the final \<open>json.dumps(results)\<close> are the body of the \<open>try\<close>; \<open>Inl e\<close> is an
      exception with the text \<open>e\<close>, which the handler \<open>except Exception\<close> turns into the
      failure result. \<open>results["ast"]\<close> is \<open>json.loads\<close> of the text of \<open>get_ast_json\<close>, which
      is the serialized tree again.\<close>
  "analyze_code ast_parse unparse py src =
     (let analyzer = init_analyzer src;
          (ok, analyzer) = parse ast_parse analyzer
      in if \<not> ok
         then JDict [(''success'', JBool False), (''errors'', JList (map JStr (errors analyzer)))]
         else
           (case
              (case structure_stage unparse analyzer of
                 Inl e \<Rightarrow> Inl e
               | Inr structure_dict \<Rightarrow>
                   (case metrics_stage py analyzer of
                      Inl e \<Rightarrow> Inl e
                    | Inr metrics_dict \<Rightarrow>
                        (case get_ast_json py analyzer of
                           Inl e \<Rightarrow> Inl e
                         | Inr ast_dict \<Rightarrow>
                             (let results = JDict [(''success'', JBool True),
                                                   (''structure'', structure_dict),
                                                   (''metrics'', metrics_dict),
                                                   (''ast'', ast_dict)]
                              in case json_raises py results of
                                   Some e \<Rightarrow> Inl e
                                 | None \<Rightarrow> Inr results))))
            of
              Inr results \<Rightarrow> results
            | Inl e \<Rightarrow> JDict [(''success'', JBool False), (''errors'', JList [JStr e])]))"

section \<open>Regular expressions of the secret patterns\<close>

text \<open>
  The five patterns of the hardcoded-secret rule are sequences of single characters and
  character classes, each taken once, optionally (\<open>?\<close>), any number of times (\<open>*\<close>) or at
  least once (\<open>+\<close>). \<open>re.search(pattern, line, re.IGNORECASE)\<close> finds a match when the
  sequence matches at some position of the line.
\<close>

datatype atom = Ch char | Space | Word | OneOf "atom list"

datatype re_item = One atom | Opt atom | Many0 atom | Many1 atom

definition is_word :: "char \<Rightarrow> bool" where
  \<comment> \<open>\<open>\w\<close> of a \<open>str\<close> pattern: alphanumeric (\<open>str.isalnum\<close>) or the underscore.\<close>
  "is_word c =
     (let n = (of_char c :: nat)
      in (48 \<le> n \<and> n \<le> 57) \<or> (65 \<le> n \<and> n \<le> 90) \<or> (97 \<le> n \<and> n \<le> 122) \<or> n = 95
         \<or> n \<in> {170, 178, 179, 181, 185, 186, 188, 189, 190}
         \<or> (192 \<le> n \<and> n \<le> 214) \<or> (216 \<le> n \<and> n \<le> 246) \<or> 248 \<le> n)"

fun atom_matches :: "atom \<Rightarrow> char \<Rightarrow> bool" where
  "atom_matches (Ch x) c = (lower_char c = lower_char x)"
| "atom_matches Space c = is_space c"
| "atom_matches Word c = is_word c"
| "atom_matches (OneOf as) c = list_ex (\<lambda>a. atom_matches a c) as"

fun runs :: "atom \<Rightarrow> string \<Rightarrow> string list" where
  "runs a [] = [[]]"
| "runs a (c # cs) = (if atom_matches a c then (c # cs) # runs a cs else [c # cs])"

fun match_here :: "re_item list \<Rightarrow> string \<Rightarrow> bool" where
  "match_here [] s = True"
| "match_here (One a # r) s =
     (case s of [] \<Rightarrow> False | c # cs \<Rightarrow> atom_matches a c \<and> match_here r cs)"
| "match_here (Opt a # r) s =
     ((case s of [] \<Rightarrow> False | c # cs \<Rightarrow> atom_matches a c \<and> match_here r cs) \<or> match_here r s)"
| "match_here (Many0 a # r) s = list_ex (match_here r) (runs a s)"
| "match_here (Many1 a # r) s =
     (case s of [] \<Rightarrow> False | c # cs \<Rightarrow> atom_matches a c \<and> list_ex (match_here r) (runs a cs))"

fun tails :: "string \<Rightarrow> string list" where
  "tails [] = [[]]"
| "tails (c # cs) = (c # cs) # tails cs"

definition re_search :: "re_item list \<Rightarrow> string \<Rightarrow> bool" where
  \<comment> \<open>\<open>re.search(pattern, line, re.IGNORECASE)\<close> is not \<open>None\<close>.\<close>
  "re_search pattern line = list_ex (match_here pattern) (tails line)"

definition lit :: "string \<Rightarrow> re_item list" where
  "lit s = map (\<lambda>c. One (Ch c)) s"

definition quote :: atom where
  \<comment> \<open>the class of the two quote characters.\<close>
  "quote = OneOf [Ch (CHR 0x27), Ch (CHR 0x22)]"

definition assigned :: "atom \<Rightarrow> re_item list" where
  \<comment> \<open>the common tail \<open>\s*=\s*['"]\<close>\<open>[...]+\<close>\<open>['"]\<close> of the five patterns.\<close>
  "assigned cls = [Many0 Space, One (Ch CHR ''=''), Many0 Space, One quote, Many1 cls, One quote]"

definition secret_patterns :: "(re_item list \<times> string) list" where
  "secret_patterns =
     [(lit ''password'' @ assigned (OneOf (Word # map Ch ''!@#$%^&*'')), ''Password''),
      (lit ''api'' @ [Opt (OneOf (map Ch ''_-''))] @ lit ''key'' @ assigned (OneOf (Word # map Ch ''-'')),
       ''API Key''),
      (lit ''secret'' @ [Opt (OneOf (map Ch ''_-''))] @ lit ''key''
         @ assigned (OneOf (Word # map Ch ''-'')), ''Secret Key''),
      (lit ''token'' @ assigned (OneOf (Word # map Ch ''.-'')), ''Token''),
      (lit ''aws'' @ [Opt (OneOf (map Ch ''_-''))] @ lit ''secret''
         @ assigned (OneOf (Word # map Ch ''/+'')), ''AWS Secret'')]"

section \<open>The security scanner\<close>

datatype severity = CRITICAL | HIGH | MEDIUM | LOW | INFO

text \<open>
  An issue is a dictionary with five keys; the severities are the five class constants.
  The scanner's state is its list of issues; each check takes the list and returns it
  with the findings of the check appended. The tree and the source text do not change.
\<close>

record finding =
  severity :: severity
  title :: string
  description :: string
  lineno :: int
  recommendation :: string

definition add_issue ::
  \<comment> \<open>\<open>_add_issue\<close>\<close>
  "finding list \<Rightarrow> severity \<Rightarrow> string \<Rightarrow> string \<Rightarrow> int \<Rightarrow> string \<Rightarrow> finding list" where
  "add_issue issues sev ttl desc line rec =
     issues @ [\<lparr>severity = sev, title = ttl, description = desc, lineno = line,
                recommendation = rec\<rparr>]"

definition dangerous_funcs :: "(string \<times> severity \<times> string) list" where
  "dangerous_funcs =
     [(''eval'', HIGH, ''Arbitrary code execution risk''),
      (''exec'', HIGH, ''Arbitrary code execution risk''),
      (''compile'', MEDIUM, ''Dynamic code compilation''),
      (''__import__'', MEDIUM, ''Dynamic import can load malicious code'')]"

definition dangerous_functions_step :: "finding list \<Rightarrow> node \<Rightarrow> finding list" where
  \<comment> \<open>the body of the loop of \<open>_check_dangerous_functions\<close>, for one node of the walk.\<close>
  "dangerous_functions_step issues node =
     (case node of
        Call p func args keywords \<Rightarrow>
          (case func of
             Name q func_name ctx \<Rightarrow>
               (case map_of dangerous_funcs func_name of
                  Some (sev, desc) \<Rightarrow>
                    add_issue issues sev (''Dangerous function: '' @ func_name @ ''()'') desc (fst p)
                      (''Avoid using '' @ func_name @ ''(). ''
                        @ ''Consider safer alternatives like ast.literal_eval() for eval(), ''
                        @ ''or refactor to eliminate dynamic code execution.'')
                | None \<Rightarrow> issues)
           | _ \<Rightarrow> issues)
      | _ \<Rightarrow> issues)"

definition check_dangerous_functions :: "node \<Rightarrow> finding list \<Rightarrow> finding list" where
  "check_dangerous_functions t issues = foldl dangerous_functions_step issues (walk t)"

definition contains_string :: "node \<Rightarrow> bool" where
  \<comment> \<open>\<open>_contains_string\<close>: some node of the walk is a \<open>Constant\<close> with a \<open>str\<close> value.\<close>
  "contains_string node =
     list_ex (\<lambda>child. case child of
                 Constant p v kind \<Rightarrow> (case v of CStr s \<Rightarrow> True | _ \<Rightarrow> False)
               | _ \<Rightarrow> False) (walk node)"

definition sql_injection_step :: "finding list \<Rightarrow> node \<Rightarrow> finding list" where
  \<comment> \<open>the body of the loop of \<open>_check_sql_injection\<close>.\<close>
  "sql_injection_step issues node =
     (case node of
        Call p func args keywords \<Rightarrow>
          (case func of
             Attribute q v attr ctx \<Rightarrow>
               (if attr = ''execute'' \<and> args \<noteq> [] then
                  (let first_arg = hd args
                   in if isinstance_of first_arg ''JoinedStr'' then
                        add_issue issues HIGH ''SQL Injection: f-string in SQL query''
                          ''Using f-strings for SQL queries allows injection attacks'' (fst p)
                          (''Use parameterized queries with placeholders: ''
                            @ ''execute('' @ [CHR 0x27] @ ''SELECT * FROM users WHERE id = ?''
                            @ [CHR 0x27] @ '', [user_id])'')
                      else
                        (case first_arg of
                           BinOp r left op right \<Rightarrow>
                             (if isinstance_of op ''Add'' then
                                (if contains_string first_arg then
                                   add_issue issues HIGH
                                     ''SQL Injection: String concatenation in query''
                                     ''String concatenation in SQL queries is unsafe'' (fst p)
                                     ''Use parameterized queries instead of concatenation''
                                 else issues)
                              else issues)
                         | _ \<Rightarrow> issues))
                else issues)
           | _ \<Rightarrow> issues)
      | _ \<Rightarrow> issues)"

definition check_sql_injection :: "node \<Rightarrow> finding list \<Rightarrow> finding list" where
  "check_sql_injection t issues = foldl sql_injection_step issues (walk t)"

definition path_traversal_step :: "finding list \<Rightarrow> node \<Rightarrow> finding list" where
  \<comment> \<open>the body of the loop of \<open>_check_path_traversal\<close>.\<close>
  "path_traversal_step issues node =
     (case node of
        Call p func args keywords \<Rightarrow>
          (case func of
             Name q ident ctx \<Rightarrow>
               (if ident \<in> set [''open'', ''read'', ''write''] then
                  (if args \<noteq> [] \<and> (case hd args of Name r i c \<Rightarrow> True
                                      | BinOp r left op right \<Rightarrow> True | _ \<Rightarrow> False)
                   then add_issue issues MEDIUM ''Potential path traversal''
                          ''User-controlled file paths can lead to unauthorized access'' (fst p)
                          (''Validate and sanitize file paths. Use os.path.basename() ''
                            @ ''or pathlib.Path.resolve() to prevent directory traversal.'')
                   else issues)
                else issues)
           | _ \<Rightarrow> issues)
      | _ \<Rightarrow> issues)"

definition check_path_traversal :: "node \<Rightarrow> finding list \<Rightarrow> finding list" where
  "check_path_traversal t issues = foldl path_traversal_step issues (walk t)"

definition unsafe_deserialization_step :: "finding list \<Rightarrow> node \<Rightarrow> finding list" where
  \<comment> \<open>the body of the loop of \<open>_check_unsafe_deserialization\<close>.\<close>
  "unsafe_deserialization_step issues node =
     (case node of
        Call p func args keywords \<Rightarrow>
          (case func of
             Attribute q v attr ctx \<Rightarrow>
               (if (case v of Name r ident c \<Rightarrow> ident = ''pickle'' | _ \<Rightarrow> False)
                   \<and> attr \<in> set [''loads'', ''load'']
                then add_issue issues HIGH ''Unsafe deserialization: pickle''
                       ''pickle.loads() can execute arbitrary code from untrusted data'' (fst p)
                       (''Use JSON or other safe serialization formats. ''
                         @ ''If pickle is required, ensure data source is trusted and verified.'')
                else issues)
           | _ \<Rightarrow> issues)
      | _ \<Rightarrow> issues)"

definition check_unsafe_deserialization :: "node \<Rightarrow> finding list \<Rightarrow> finding list" where
  "check_unsafe_deserialization t issues = foldl unsafe_deserialization_step issues (walk t)"

definition secret_pattern_step ::
  "nat \<Rightarrow> string \<Rightarrow> finding list \<Rightarrow> re_item list \<times> string \<Rightarrow> finding list" where
  \<comment> \<open>the body of the inner loop, for one pattern on one line.\<close>
  "secret_pattern_step line_number line issues entry =
     (case entry of (pattern, secret_type) \<Rightarrow>
        if re_search pattern line
        then add_issue issues CRITICAL (''Hardcoded secret: '' @ secret_type)
               (secret_type @ '' found in source code'') (int line_number)
               (''Move secrets to environment variables or secure vault. ''
                 @ ''Use os.getenv() or python-dotenv to load from .env files.'')
        else issues)"

definition hardcoded_secrets_line :: "finding list \<Rightarrow> nat \<times> string \<Rightarrow> finding list" where
  \<comment> \<open>the body of the outer loop, for one numbered line.\<close>
  "hardcoded_secrets_line issues numbered =
     (case numbered of (line_number, line) \<Rightarrow>
        foldl (secret_pattern_step line_number line) issues secret_patterns)"

definition check_hardcoded_secrets :: "string \<Rightarrow> finding list \<Rightarrow> finding list" where
  \<comment> \<open>\<open>_check_hardcoded_secrets\<close>: the lines are numbered from 1.\<close>
  "check_hardcoded_secrets src issues =
     (let lines = splitlines src
      in foldl hardcoded_secrets_line issues (List.enumerate 1 lines))"

definition weak_crypto_step :: "finding list \<Rightarrow> node \<Rightarrow> finding list" where
  \<comment> \<open>the body of the loop of \<open>_check_weak_crypto\<close>.\<close>
  "weak_crypto_step issues node =
     (case node of
        Call p func args keywords \<Rightarrow>
          (case func of
             Attribute q v attr ctx \<Rightarrow>
               (if (case v of Name r ident c \<Rightarrow> ident = ''hashlib'' | _ \<Rightarrow> False)
                   \<and> attr \<in> set [''md5'', ''sha1'']
                then add_issue issues MEDIUM (''Weak cryptographic algorithm: '' @ attr)
                       (upper attr @ '' is cryptographically weak'') (fst p)
                       (''Use stronger algorithms like SHA-256 or SHA-512 ''
                         @ ''for cryptographic purposes.'')
                else issues)
           | _ \<Rightarrow> issues)
      | _ \<Rightarrow> issues)"

definition check_weak_crypto :: "node \<Rightarrow> finding list \<Rightarrow> finding list" where
  "check_weak_crypto t issues = foldl weak_crypto_step issues (walk t)"

definition isinstance_Attribute :: "node \<Rightarrow> bool" where
  \<comment> \<open>\<open>isinstance(node, ast.Attribute)\<close>\<close>
  "isinstance_Attribute node = (case node of Attribute q v attr ctx \<Rightarrow> True | _ \<Rightarrow> False)"

definition shell_keyword_step :: "int \<Rightarrow> finding list \<Rightarrow> node keyword \<Rightarrow> finding list" where
  \<comment> \<open>the body of the loop over \<open>node.keywords\<close>; \<open>is True\<close> holds of the constant \<open>True\<close> only.\<close>
  "shell_keyword_step node_lineno issues keyword =
     (case keyword of (kp, keyword_arg, keyword_value) \<Rightarrow>
        (if keyword_arg = Some ''shell''
            \<and> (case keyword_value of Constant r c kind \<Rightarrow> True | _ \<Rightarrow> False)
         then (if (case keyword_value of Constant r c kind \<Rightarrow> c = CBool True | _ \<Rightarrow> False)
               then add_issue issues HIGH ''Shell injection risk: shell=True''
                      ''subprocess with shell=True is vulnerable to injection'' node_lineno
                      ''Set shell=False and pass command as list of arguments''
               else issues)
         else issues))"

definition shell_injection_step :: "finding list \<Rightarrow> node \<Rightarrow> finding list" where
  \<comment> \<open>the body of the loop of \<open>_check_shell_injection\<close>: the \<open>if\<close> on the callee being an
      attribute, and its \<open>elif\<close>, which tests the same again.\<close>
  "shell_injection_step issues node =
     (case node of
        Call p func args keywords \<Rightarrow>
          (if isinstance_Attribute func then
             (if (case func of
                    Attribute q v attr ctx \<Rightarrow>
                      (case v of Name r ident c \<Rightarrow> ident = ''os'' | _ \<Rightarrow> False) \<and> attr = ''system''
                  | _ \<Rightarrow> False)
              then add_issue issues HIGH ''Shell injection risk: os.system()''
                     ''os.system() with user input can execute arbitrary commands'' (fst p)
                     (''Use subprocess.run() with shell=False and argument list. ''
                       @ ''Validate and sanitize all user input.'')
              else issues)
           else if isinstance_Attribute func
                   \<and> (case func of Attribute q v attr ctx \<Rightarrow> attr \<in> set [''call'', ''run'', ''Popen'']
                       | _ \<Rightarrow> False)
           then foldl (shell_keyword_step (fst p)) issues keywords
           else issues)
      | _ \<Rightarrow> issues)"

definition check_shell_injection :: "node \<Rightarrow> finding list \<Rightarrow> finding list" where
  "check_shell_injection t issues = foldl shell_injection_step issues (walk t)"

definition severity_order :: "severity list" where
  \<comment> \<open>the local list \<open>severity_order\<close> of \<open>scan\<close>.\<close>
  "severity_order = [CRITICAL, HIGH, MEDIUM, LOW, INFO]"

definition list_index :: "'a list \<Rightarrow> 'a \<Rightarrow> nat" where
  \<comment> \<open>\<open>xs.index(x)\<close> for an \<open>x\<close> that occurs in \<open>xs\<close>.\<close>
  "list_index xs x = length (takeWhile (\<lambda>y. y \<noteq> x) xs)"

definition severity_rank :: "finding \<Rightarrow> nat" where
  \<comment> \<open>the sort key \<open>lambda x: severity_order.index(x["severity"])\<close>\<close>
  "severity_rank x = list_index severity_order (severity x)"

text \<open>The rank of a severity in the words of the specification: CRITICAL = 0 up to INFO = 4.\<close>

fun spec_rank :: "severity \<Rightarrow> nat" where
  "spec_rank CRITICAL = 0"
| "spec_rank HIGH = 1"
| "spec_rank MEDIUM = 2"
| "spec_rank LOW = 3"
| "spec_rank INFO = 4"

definition run_checks :: "string \<Rightarrow> node \<Rightarrow> finding list" where
  \<comment> \<open>the first part of \<open>scan\<close>: the list is emptied and the seven checks run in order.\<close>
  "run_checks src t =
     (let issues = [];
          issues = check_dangerous_functions t issues;
          issues = check_sql_injection t issues;
          issues = check_path_traversal t issues;
          issues = check_unsafe_deserialization t issues;
          issues = check_hardcoded_secrets src issues;
          issues = check_weak_crypto t issues;
          issues = check_shell_injection t issues
      in issues)"

definition scan :: "string \<Rightarrow> node \<Rightarrow> finding list" where
  \<comment> \<open>\<open>SecurityScanner.scan\<close>: \<open>list.sort\<close> is stable, as \<open>sort_key\<close> is.\<close>
  "scan src t = sort_key severity_rank (run_checks src t)"

definition scan_security :: "string \<Rightarrow> node \<Rightarrow> finding list" where
  \<comment> \<open>the entry point \<open>scan_security(source_code, tree)\<close>\<close>
  "scan_security src t = scan src t"

section \<open>Example programs\<close>

text \<open>The trees of a few one-line programs, as the parsing front-end builds them.\<close>

definition load :: node where
  \<comment> \<open>the expression context \<open>Load()\<close>\<close>
  "load = Other ''Load'' None []"

definition module :: "node list \<Rightarrow> node" where
  \<comment> \<open>\<open>Module(body=..., type_ignores=[])\<close>\<close>
  "module body =
     Other ''Module'' None [(''body'', FList (map INode body)), (''type_ignores'', FList [])]"

definition tree_eval_x :: node where
  \<comment> \<open>\<open>eval(x)\<close>\<close>
  "tree_eval_x =
     module [Expr (1, 0) (Call (1, 0) (Name (1, 0) ''eval'' load) [Name (1, 5) ''x'' load] [])]"

definition no_unparse :: "node \<Rightarrow> string" where
  \<comment> \<open>a stand-in for \<open>ast.unparse\<close> where no annotation, decorator or base is rendered.\<close>
  "no_unparse n = []"

definition store :: node where
  "store = Other ''Store'' None []"

definition tree_os_system :: node where
  \<comment> \<open>\<open>os.system(cmd)\<close>\<close>
  "tree_os_system =
     module [Expr (1, 0) (Call (1, 0) (Attribute (1, 0) (Name (1, 0) ''os'' load) ''system'' load)
               [Name (1, 10) ''cmd'' load] [])]"

definition tree_subprocess_run :: "bool \<Rightarrow> node" where
  \<comment> \<open>\<open>subprocess.run(cmd, shell=True)\<close> and \<open>subprocess.run(cmd, shell=False)\<close>\<close>
  "tree_subprocess_run b =
     module [Expr (1, 0)
       (Call (1, 0) (Attribute (1, 0) (Name (1, 0) ''subprocess'' load) ''run'' load)
          [Name (1, 15) ''cmd'' load]
          [((1, 20), Some ''shell'', Constant (1, 26) (CBool b) None)])]"

definition src_pickle_alias :: string where
  "src_pickle_alias = ''import pickle as p'' @ [CHR 0x0A] @ ''p.loads(data)''"

definition tree_pickle_alias :: node where
  \<comment> \<open>the two lines \<open>import pickle as p\<close> and \<open>p.loads(data)\<close>\<close>
  "tree_pickle_alias =
     module [Import (1, 0) [((1, 7), ''pickle'', Some ''p'')],
             Expr (2, 0) (Call (2, 0) (Attribute (2, 0) (Name (2, 0) ''p'' load) ''loads'' load)
               [Name (2, 8) ''data'' load] [])]"

definition src_mixed :: string where
  "src_mixed = ''password = '' @ [CHR 0x22] @ ''abc123'' @ [CHR 0x22, CHR 0x0A]
     @ ''pickle.loads(d)'' @ [CHR 0x0A] @ ''open(path)'' @ [CHR 0x0A] @ ''eval(x)''"

definition tree_mixed :: node where
  \<comment> \<open>the four lines \<open>password = "abc123"\<close>, \<open>pickle.loads(d)\<close>, \<open>open(path)\<close>, \<open>eval(x)\<close>\<close>
  "tree_mixed =
     module [Other ''Assign'' (Some (1, 0))
               [(''targets'', FList [INode (Name (1, 0) ''password'' store)]),
                (''value'', FNode (Constant (1, 11) (CStr ''abc123'') None)),
                (''type_comment'', FPrim CNone)],
             Expr (2, 0) (Call (2, 0) (Attribute (2, 0) (Name (2, 0) ''pickle'' load) ''loads'' load)
               [Name (2, 13) ''d'' load] []),
             Expr (3, 0) (Call (3, 0) (Name (3, 0) ''open'' load) [Name (3, 5) ''path'' load] []),
             Expr (4, 0) (Call (4, 0) (Name (4, 0) ''eval'' load) [Name (4, 5) ''x'' load] [])]"

definition unparse_stub :: "node \<Rightarrow> string + string" where
  \<comment> \<open>a stand-in for \<open>ast.unparse\<close> that raises nothing.\<close>
  "unparse_stub n = Inr (no_unparse n)"

definition cpython :: interpreter where
  \<comment> \<open>an interpreter with the default limits, whose JSON coder raises nothing.\<close>
  "cpython = \<lparr>int_max_str_digits = 4300, recursion_limit = 1000,
              recursion_error = ''maximum recursion depth exceeded'',
              json_raises = (\<lambda>v. None)\<rparr>"






definition tree_nested :: node where
  \<comment> \<open>the four lines \<open>def f(x):\<close>, \<open>if x:\<close>, \<open>for i in x:\<close>, \<open>pass\<close>, each nested in the one before.\<close>
  "tree_nested =
     module
       [FunctionDef (1, 0) ''f'' ([], [((1, 6), ''x'', None, None)], None, [], [], None, [])
          [Other ''If'' (Some (2, 4))
             [(''test'', FNode (Name (2, 7) ''x'' load)),
              (''body'', FList
                 [INode (Other ''For'' (Some (3, 8))
                    [(''target'', FNode (Name (3, 12) ''i'' store)),
                     (''iter'', FNode (Name (3, 17) ''x'' load)),
                     (''body'', FList [INode (Other ''Pass'' (Some (4, 12)) [])]),
                     (''orelse'', FList []),
                     (''type_comment'', FPrim CNone)])]),
              (''orelse'', FList [])]]
          [] None None]"

definition tree_class_and_function :: node where
  \<comment> \<open>the three lines \<open>class A:\<close>, \<open>def m(self): pass\<close> (in the class) and \<open>def f(): pass\<close>.\<close>
  "tree_class_and_function =
     module
       [ClassDef (1, 0) ''A'' [] []
          [FunctionDef (2, 4) ''m'' ([], [((2, 10), ''self'', None, None)], None, [], [], None, [])
             [Other ''Pass'' (Some (2, 17)) []] [] None None]
          [],
        FunctionDef (3, 0) ''f'' ([], [], None, [], [], None, [])
          [Other ''Pass'' (Some (3, 9)) []] [] None None]"

section \<open>Notions used in the proofs\<close>

definition mild :: "finding list \<Rightarrow> bool" where
  \<comment> \<open>every finding of the list is CRITICAL, HIGH or MEDIUM.\<close>
  "mild fs = list_all (\<lambda>f. severity f = CRITICAL \<or> severity f = HIGH \<or> severity f = MEDIUM) fs"

definition nest_bit :: "node \<Rightarrow> nat" where
  \<comment> \<open>what the depth grows by on the way into a child.\<close>
  "nest_bit c = (if is_nesting c then 1 else 0)"

definition path_ends :: "node \<Rightarrow> node set" where
  \<comment> \<open>the nodes that the paths from the root lead to.\<close>
  "path_ends n = last ` set (root_paths n)"

definition is_function_def :: "node \<Rightarrow> bool" where
  \<comment> \<open>\<open>isinstance(n, ast.FunctionDef)\<close>\<close>
  "is_function_def n =
     (case n of FunctionDef p name args body decorator_list returns type_comment \<Rightarrow> True
      | _ \<Rightarrow> False)"

definition is_class_def :: "node \<Rightarrow> bool" where
  \<comment> \<open>\<open>isinstance(n, ast.ClassDef)\<close>\<close>
  "is_class_def n =
     (case n of ClassDef p name bases keywords body decorator_list \<Rightarrow> True | _ \<Rightarrow> False)"

section \<open>Line counts: proofs\<close>









section \<open>The orchestrator: proofs\<close>

text \<open>
  \<open>get_structure\<close> reads the renderer at the arguments of its calls only, so the renderer
  matters to the structure report through \<open>unparse_calls\<close> alone.
\<close>

lemma structure_step_reads:
  assumes "\<And>n. n \<in> set (case node of
                     FunctionDef p name args body decorator_list returns type_comment \<Rightarrow>
                       (case returns of None \<Rightarrow> [] | Some r \<Rightarrow> [r]) @ decorator_list
                   | ClassDef p name bases keywords body decorator_list \<Rightarrow> bases
                   | _ \<Rightarrow> []) \<Longrightarrow> u n = u' n"
  shows "structure_step u s node = structure_step u' s node"
proof (cases node)
  case (FunctionDef p name as body decorator_list returns type_comment)
  with assms have "map_option u returns = map_option u' returns"
    and "map (\<lambda>d. JStr (u d)) decorator_list = map (\<lambda>d. JStr (u' d)) decorator_list"
    by (cases returns; simp)+
  with FunctionDef show ?thesis by (simp add: structure_step_def)
next
  case (ClassDef p name bases kws body decorator_list)
  with assms have "map (\<lambda>base. JStr (u base)) bases = map (\<lambda>base. JStr (u' base)) bases"
    by simp
  with ClassDef show ?thesis by (simp add: structure_step_def)
qed (simp_all add: structure_step_def)

lemma get_structure_reads:
  assumes "tree self = Some t" and "\<And>n. n \<in> set (unparse_calls t) \<Longrightarrow> u n = u' n"
  shows "get_structure u self = get_structure u' self"
proof -
  have "foldl (structure_step u) s ns = foldl (structure_step u') s ns"
    if "set ns \<subseteq> set (walk t)" for s ns
    using that
  proof (induction ns arbitrary: s)
    case Nil
    show ?case by simp
  next
    case (Cons node ns)
    have "structure_step u s node = structure_step u' s node"
      by (rule structure_step_reads, rule assms(2)) (use Cons.prems in \<open>auto simp: unparse_calls_def\<close>)
    with Cons show ?case by simp
  qed
  then show ?thesis using assms(1) by (simp add: get_structure_def)
qed












lemma str_nat_digit: "n < 10 \<Longrightarrow> str_nat n = [''0123456789'' ! n]"
  by (simp add: str_nat.simps)

lemma parse_failed:
  "ast_parse src = Raised e \<Longrightarrow>
     parse ast_parse (init_analyzer src) =
       (False, \<lparr>source_code = src, tree = None,
                errors = [case e of
                            SyntaxError l m \<Rightarrow> ''Syntax error at line '' @ str_opt_int l @ '': '' @ m
                          | OtherException x \<Rightarrow> ''Parse error: '' @ x]\<rparr>)"
  by (cases e) (simp_all add: parse_def init_analyzer_def)


text \<open>
  C2 (as amended). When the front-end raises, \<open>analyze_code\<close> returns \<open>success = false\<close> with
  exactly one message and nothing else: no structure, metrics, tree or findings, and
  no exception leaves the call. For a syntax error the message is
  \<open>Syntax error at line <lineno>: <msg>\<close>; for any other exception it is
  \<open>Parse error: <text>\<close>, which carries no line.
\<close>

theorem C2_parse_failure_result:
  "ast_parse src = Raised e \<Longrightarrow>
     analyze_code ast_parse unparse py src =
       JDict [(''success'', JBool False),
              (''errors'', JList [JStr (case e of
                   SyntaxError l m \<Rightarrow> ''Syntax error at line '' @ str_opt_int l @ '': '' @ m
                 | OtherException x \<Rightarrow> ''Parse error: '' @ x)])]
     \<and> dict_get (analyze_code ast_parse unparse py src) ''structure'' = None
     \<and> dict_get (analyze_code ast_parse unparse py src) ''metrics'' = None
     \<and> dict_get (analyze_code ast_parse unparse py src) ''ast'' = None
     \<and> dict_get (analyze_code ast_parse unparse py src) ''findings'' = None"
  by (simp add: analyze_code_def parse_failed dict_get_def)

text \<open>C2, witness: a syntax error reported at line 1.\<close>

theorem C2_parse_failure_witness:
  "analyze_code (\<lambda>s. Raised (SyntaxError (Some 1) ''invalid syntax'')) unparse_stub cpython
       ''eval(''
     = JDict [(''success'', JBool False),
              (''errors'', JList [JStr ''Syntax error at line 1: invalid syntax''])]"
  using C2_parse_failure_result
    [of "\<lambda>s. Raised (SyntaxError (Some 1) ''invalid syntax'')" "''eval(''"
        "SyntaxError (Some 1) ''invalid syntax''" unparse_stub cpython]
  by (simp add: str_opt_int_def str_int_def str_nat_digit)

text \<open>
  C2, counterexample to the claim as stated: the front-end rejects a source that holds a
  null byte with a \<open>ValueError\<close>; the single message is the text of that exception after
  \<open>Parse error:\<close> and has no digit in it, so it names no line.
\<close>

theorem C2_no_line_counterexample:
  "analyze_code (\<lambda>s. Raised (OtherException ''source code string cannot contain null bytes''))
       unparse_stub cpython [CHR 0x00]
     = JDict [(''success'', JBool False),
              (''errors'', JList [JStr ''Parse error: source code string cannot contain null bytes''])]
   \<and> filter is_digit ''Parse error: source code string cannot contain null bytes'' = []"
  by (simp add: analyze_code_def parse_def init_analyzer_def is_digit_def)





section \<open>The security scanner: proofs\<close>

lemma foldl_emit:
  assumes "\<And>issues x. step issues x = issues @ step [] x"
  shows "foldl step issues xs = issues @ concat (map (step []) xs)"
proof (induction xs arbitrary: issues)
  case Nil
  show ?case by simp
next
  case (Cons x xs)
  have "foldl step issues (x # xs) = foldl step (step issues x) xs" by simp
  also have "\<dots> = step issues x @ concat (map (step []) xs)" by (rule Cons.IH)
  also have "\<dots> = issues @ step [] x @ concat (map (step []) xs)"
    using assms [of issues x] by simp
  finally show ?case by simp
qed

lemma dangerous_functions_emit:
  "dangerous_functions_step issues node = issues @ dangerous_functions_step [] node"
  by (simp add: dangerous_functions_step_def add_issue_def split: node.split option.split)

lemma sql_injection_emit: "sql_injection_step issues node = issues @ sql_injection_step [] node"
  by (simp add: sql_injection_step_def add_issue_def Let_def split: node.split)

lemma path_traversal_emit: "path_traversal_step issues node = issues @ path_traversal_step [] node"
  by (simp add: path_traversal_step_def add_issue_def split: node.split)

lemma unsafe_deserialization_emit:
  "unsafe_deserialization_step issues node = issues @ unsafe_deserialization_step [] node"
  by (simp add: unsafe_deserialization_step_def add_issue_def split: node.split)

lemma weak_crypto_emit: "weak_crypto_step issues node = issues @ weak_crypto_step [] node"
  by (simp add: weak_crypto_step_def add_issue_def split: node.split)

lemma shell_keyword_emit:
  "shell_keyword_step l issues keyword = issues @ shell_keyword_step l [] keyword"
  by (simp add: shell_keyword_step_def add_issue_def split: prod.split)

lemma shell_injection_emit:
  "shell_injection_step issues node = issues @ shell_injection_step [] node"
  by (simp add: shell_injection_step_def add_issue_def
        foldl_emit [where step = "shell_keyword_step l" for l, OF shell_keyword_emit]
      split: node.split)

lemma secret_pattern_emit:
  "secret_pattern_step n line issues entry = issues @ secret_pattern_step n line [] entry"
  by (simp add: secret_pattern_step_def add_issue_def split: prod.split)

lemma hardcoded_secrets_line_emit:
  "hardcoded_secrets_line issues numbered = issues @ hardcoded_secrets_line [] numbered"
  by (simp add: hardcoded_secrets_line_def
        foldl_emit [where step = "secret_pattern_step n line" for n line, OF secret_pattern_emit]
      split: prod.split)

lemma check_dangerous_functions_emit:
  "check_dangerous_functions t issues = issues @ concat (map (dangerous_functions_step []) (walk t))"
  unfolding check_dangerous_functions_def by (rule foldl_emit) (rule dangerous_functions_emit)

lemma check_sql_injection_emit:
  "check_sql_injection t issues = issues @ concat (map (sql_injection_step []) (walk t))"
  unfolding check_sql_injection_def by (rule foldl_emit) (rule sql_injection_emit)

lemma check_path_traversal_emit:
  "check_path_traversal t issues = issues @ concat (map (path_traversal_step []) (walk t))"
  unfolding check_path_traversal_def by (rule foldl_emit) (rule path_traversal_emit)

lemma check_unsafe_deserialization_emit:
  "check_unsafe_deserialization t issues
     = issues @ concat (map (unsafe_deserialization_step []) (walk t))"
  unfolding check_unsafe_deserialization_def
  by (rule foldl_emit) (rule unsafe_deserialization_emit)

lemma check_hardcoded_secrets_emit:
  "check_hardcoded_secrets src issues
     = issues @ concat (map (hardcoded_secrets_line []) (List.enumerate 1 (splitlines src)))"
  unfolding check_hardcoded_secrets_def Let_def
  by (rule foldl_emit) (rule hardcoded_secrets_line_emit)

lemma check_weak_crypto_emit:
  "check_weak_crypto t issues = issues @ concat (map (weak_crypto_step []) (walk t))"
  unfolding check_weak_crypto_def by (rule foldl_emit) (rule weak_crypto_emit)

lemma check_shell_injection_emit:
  "check_shell_injection t issues = issues @ concat (map (shell_injection_step []) (walk t))"
  unfolding check_shell_injection_def by (rule foldl_emit) (rule shell_injection_emit)

lemma run_checks_order:
  "run_checks src t =
     check_dangerous_functions t [] @ check_sql_injection t [] @ check_path_traversal t []
       @ check_unsafe_deserialization t [] @ check_hardcoded_secrets src []
       @ check_weak_crypto t [] @ check_shell_injection t []"
  by (simp add: run_checks_def Let_def check_dangerous_functions_emit check_sql_injection_emit
        check_path_traversal_emit check_unsafe_deserialization_emit check_hardcoded_secrets_emit
        check_weak_crypto_emit check_shell_injection_emit)

lemma severity_rank_eq: "(severity_rank f = severity_rank g) = (severity f = severity g)"
  by (cases "severity f"; cases "severity g")
     (simp_all add: severity_rank_def list_index_def severity_order_def)

lemma filter_severity_scan:
  "filter (\<lambda>f. severity f = s) (scan src t) = filter (\<lambda>f. severity f = s) (run_checks src t)"
proof -
  have eq: "(\<lambda>f. severity f = s) = (\<lambda>f. severity_rank f = list_index severity_order s)"
    by (rule ext, cases s)
       (auto simp: severity_rank_def list_index_def severity_order_def split: severity.splits)
  show ?thesis unfolding scan_def eq by (rule sort_key_stable)
qed

lemma severity_rank_spec: "severity_rank f = spec_rank (severity f)"
  by (cases "severity f") (simp_all add: severity_rank_def list_index_def severity_order_def)

text \<open>
  C3. The findings that \<open>scan\<close> returns are sorted by severity rank, non-decreasing, with
  the ranks 0 for CRITICAL up to 4 for INFO; and the findings of one severity are, in
  this order, the ones that the rules emitted: the rules run in their fixed order, each
  appending after the findings of the rules before it, and the sort keeps that order
  among equal severities.
\<close>

theorem C3_scan_sorted_stable:
  "sorted (map (\<lambda>f. spec_rank (severity f)) (scan src t))
   \<and> (\<forall>s. filter (\<lambda>f. severity f = s) (scan src t)
             = filter (\<lambda>f. severity f = s)
                 (check_dangerous_functions t [] @ check_sql_injection t []
                   @ check_path_traversal t [] @ check_unsafe_deserialization t []
                   @ check_hardcoded_secrets src [] @ check_weak_crypto t []
                   @ check_shell_injection t []))"
proof (intro conjI allI)
  have "sorted (map severity_rank (scan src t))" by (simp add: scan_def)
  moreover have "severity_rank = (\<lambda>f. spec_rank (severity f))"
    by (rule ext) (rule severity_rank_spec)
  ultimately show "sorted (map (\<lambda>f. spec_rank (severity f)) (scan src t))" by simp
next
  fix s
  show "filter (\<lambda>f. severity f = s) (scan src t)
          = filter (\<lambda>f. severity f = s)
              (check_dangerous_functions t [] @ check_sql_injection t []
                @ check_path_traversal t [] @ check_unsafe_deserialization t []
                @ check_hardcoded_secrets src [] @ check_weak_crypto t []
                @ check_shell_injection t [])"
    using filter_severity_scan [of s src t] unfolding run_checks_order .
qed

lemma mild_simps [simp]:
  "mild []" "mild (f # fs) = ((severity f = CRITICAL \<or> severity f = HIGH \<or> severity f = MEDIUM) \<and> mild fs)"
  "mild (xs @ ys) = (mild xs \<and> mild ys)"
  by (simp_all add: mild_def)

lemma mild_concat: "(\<And>x. mild (g x)) \<Longrightarrow> mild (concat (map g xs))"
  by (induction xs) simp_all

lemma dangerous_severity: "mild (dangerous_functions_step [] node)"
  by (simp add: dangerous_functions_step_def add_issue_def dangerous_funcs_def
      split: node.split option.split)

lemma sql_severity: "mild (sql_injection_step [] node)"
  by (simp add: sql_injection_step_def add_issue_def Let_def split: node.split)

lemma path_severity: "mild (path_traversal_step [] node)"
  by (simp add: path_traversal_step_def add_issue_def split: node.split)

lemma deserialization_severity: "mild (unsafe_deserialization_step [] node)"
  by (simp add: unsafe_deserialization_step_def add_issue_def split: node.split)

lemma crypto_severity: "mild (weak_crypto_step [] node)"
  by (simp add: weak_crypto_step_def add_issue_def split: node.split)

lemma shell_keyword_severity: "mild (shell_keyword_step l [] k)"
  by (simp add: shell_keyword_step_def add_issue_def split: prod.split)

lemma shell_severity: "mild (shell_injection_step [] node)"
  by (simp add: shell_injection_step_def add_issue_def
        foldl_emit [where step = "shell_keyword_step l" for l, OF shell_keyword_emit]
        mild_concat shell_keyword_severity
      split: node.split)

lemma secret_pattern_severity: "mild (secret_pattern_step n line [] entry)"
  by (simp add: secret_pattern_step_def add_issue_def split: prod.split)

lemma secret_severity: "mild (hardcoded_secrets_line [] numbered)"
  by (simp add: hardcoded_secrets_line_def
        foldl_emit [where step = "secret_pattern_step n line" for n line, OF secret_pattern_emit]
        mild_concat secret_pattern_severity
      split: prod.split)

lemma run_checks_severity: "mild (run_checks src t)"
  by (simp add: run_checks_order check_dangerous_functions_emit check_sql_injection_emit
        check_path_traversal_emit check_unsafe_deserialization_emit check_hardcoded_secrets_emit
        check_weak_crypto_emit check_shell_injection_emit mild_concat
        dangerous_severity sql_severity path_severity deserialization_severity crypto_severity
        shell_severity secret_severity)

text \<open>
  C10. Every finding that the scan returns has severity CRITICAL, HIGH or MEDIUM: no rule
  emits LOW or INFO.
\<close>

theorem C10_no_low_or_info:
  "\<forall>f \<in> set (scan src t). severity f \<in> {CRITICAL, HIGH, MEDIUM}"
proof
  fix f
  assume "f \<in> set (scan src t)"
  then have "f \<in> set (run_checks src t)" by (simp add: scan_def)
  with run_checks_severity [of src t] show "severity f \<in> {CRITICAL, HIGH, MEDIUM}"
    by (auto simp: mild_def list_all_iff)
qed

lemma scan_eval_x:
  "scan ''eval(x)'' tree_eval_x =
     [\<lparr>severity = HIGH, title = ''Dangerous function: eval()'',
       description = ''Arbitrary code execution risk'', lineno = 1,
       recommendation = ''Avoid using eval(). Consider safer alternatives like ast.literal_eval() for eval(), or refactor to eliminate dynamic code execution.''\<rparr>]"
  by code_simp

lemma scan_mixed:
  "map (\<lambda>f. (severity f, lineno f, title f)) (scan src_mixed tree_mixed) =
     [(CRITICAL, 1, ''Hardcoded secret: Password''),
      (HIGH, 4, ''Dangerous function: eval()''),
      (HIGH, 2, ''Unsafe deserialization: pickle''),
      (MEDIUM, 3, ''Potential path traversal'')]"
  by code_simp

lemma scan_os_system:
  "map (\<lambda>f. (severity f, lineno f, title f)) (scan ''os.system(cmd)'' tree_os_system) =
     [(HIGH, 1, ''Shell injection risk: os.system()'')]"
  by code_simp

lemma scan_shell_true:
  "scan ''subprocess.run(cmd, shell=True)'' (tree_subprocess_run True) = []
   \<and> check_shell_injection (tree_subprocess_run True) [] = []"
  by code_simp

lemma scan_shell_false:
  "check_shell_injection (tree_subprocess_run False) [] = []"
  by code_simp

lemma scan_pickle_alias:
  "check_unsafe_deserialization tree_pickle_alias [] = [] \<and> scan src_pickle_alias tree_pickle_alias = []"
  by code_simp


text \<open>
  C3, illustration: two HIGH findings come out in the order of their rules (the
  dangerous-function rule before the deserialization rule), not of their lines (4 before 2).
\<close>

lemma scan_rule_order_not_line_order:
  "map lineno (filter (\<lambda>f. severity f = HIGH) (scan src_mixed tree_mixed)) = [4, 2]"
proof -
  have "map (\<lambda>f. (severity f, lineno f, title f)) (filter (\<lambda>f. severity f = HIGH) (scan src_mixed tree_mixed))
          = filter (\<lambda>x. fst x = HIGH) (map (\<lambda>f. (severity f, lineno f, title f)) (scan src_mixed tree_mixed))"
    by (simp add: filter_map comp_def)
  also have "\<dots> = [(HIGH, 4, ''Dangerous function: eval()''), (HIGH, 2, ''Unsafe deserialization: pickle'')]"
    unfolding scan_mixed by simp
  finally have "map (fst \<circ> snd) (map (\<lambda>f. (severity f, lineno f, title f))
      (filter (\<lambda>f. severity f = HIGH) (scan src_mixed tree_mixed))) = [4, 2]"
    by simp
  then show ?thesis by (simp add: comp_def)
qed

text \<open>C3, illustration: the ranks of the findings of the four-line program.\<close>

lemma scan_mixed_sorted_example:
  "map (\<lambda>f. spec_rank (severity f)) (scan src_mixed tree_mixed) = [0, 1, 1, 2]"
proof -
  have "map (\<lambda>f. spec_rank (severity f)) (scan src_mixed tree_mixed)
          = map (spec_rank \<circ> fst) (map (\<lambda>f. (severity f, lineno f, title f)) (scan src_mixed tree_mixed))"
    by (simp add: comp_def)
  also have "\<dots> = [0, 1, 1, 2]" unfolding scan_mixed by simp
  finally show ?thesis .
qed

text \<open>C10, witness: the four-line program has a CRITICAL, two HIGH and a MEDIUM finding.\<close>

theorem C10_no_low_or_info_witness:
  "map severity (scan src_mixed tree_mixed) = [CRITICAL, HIGH, HIGH, MEDIUM]
   \<and> list_all (\<lambda>f. severity f \<in> {CRITICAL, HIGH, MEDIUM}) (scan src_mixed tree_mixed)"
proof -
  have "map (fst \<circ> (\<lambda>f. (severity f, lineno f, title f))) (scan src_mixed tree_mixed)
          = [CRITICAL, HIGH, HIGH, MEDIUM]"
    unfolding map_map [symmetric] scan_mixed by simp
  then have "map severity (scan src_mixed tree_mixed) = [CRITICAL, HIGH, HIGH, MEDIUM]"
    by (simp add: comp_def)
  moreover have "list_all (\<lambda>f. severity f \<in> {CRITICAL, HIGH, MEDIUM}) (scan src_mixed tree_mixed)"
    using C10_no_low_or_info [of src_mixed tree_mixed] by (simp add: list_all_iff)
  ultimately show ?thesis by simp
qed

text \<open>
  C7. For a call whose callee is one of the bare names \<open>eval\<close>, \<open>exec\<close>, \<open>compile\<close> and
  \<open>__import__\<close>, the step of the dangerous-function rule appends exactly one finding, at
  the line of the call, HIGH for \<open>eval\<close> and \<open>exec\<close> and MEDIUM for the other two, with the
  name in the title; the rule is that step at every node of the walk, in order; and the
  scan of \<open>eval(x)\<close> is exactly one HIGH finding whose title names \<open>eval\<close>.
\<close>

theorem C7_dangerous_call:
  assumes "name \<in> set [''eval'', ''exec'', ''compile'', ''__import__'']"
  shows "(\<exists>d r. dangerous_functions_step issues (Call p (Name q name ctx) args keywords) =
            issues @ [\<lparr>severity = (if name \<in> set [''eval'', ''exec''] then HIGH else MEDIUM),
                       title = ''Dangerous function: '' @ name @ ''()'',
                       description = d, lineno = fst p, recommendation = r\<rparr>])
         \<and> check_dangerous_functions t [] = concat (map (dangerous_functions_step []) (walk t))
         \<and> map (\<lambda>f. (severity f, lineno f, title f)) (scan ''eval(x)'' tree_eval_x)
             = [(HIGH, 1, ''Dangerous function: eval()'')]"
proof (intro conjI)
  from assms
  show "\<exists>d r. dangerous_functions_step issues (Call p (Name q name ctx) args keywords) =
            issues @ [\<lparr>severity = (if name \<in> set [''eval'', ''exec''] then HIGH else MEDIUM),
                       title = ''Dangerous function: '' @ name @ ''()'',
                       description = d, lineno = fst p, recommendation = r\<rparr>]"
    by (auto simp: dangerous_functions_step_def dangerous_funcs_def add_issue_def)
next
  show "check_dangerous_functions t [] = concat (map (dangerous_functions_step []) (walk t))"
    by (simp add: check_dangerous_functions_emit)
next
  show "map (\<lambda>f. (severity f, lineno f, title f)) (scan ''eval(x)'' tree_eval_x)
          = [(HIGH, 1, ''Dangerous function: eval()'')]"
    by (simp add: scan_eval_x)
qed

text \<open>C7, witness: a call of \<open>compile\<close> at line 7.\<close>

theorem C7_dangerous_call_witness:
  "map (\<lambda>f. (severity f, lineno f, title f))
     (dangerous_functions_step [] (Call (7, 4) (Name (7, 4) ''compile'' load) [] []))
     = [(MEDIUM, 7, ''Dangerous function: compile()'')]"
  using C7_dangerous_call [of "''compile''" "[]" "(7, 4)" "(7, 4)" load "[]" "[]" tree_eval_x]
  by auto

text \<open>
  C8, the code at the failing input: for \<open>subprocess.run(cmd, shell=True)\<close> the shell rule
  emits nothing and the scan is empty. The branch that looks for \<open>shell=True\<close> is the
  \<open>elif\<close> of a test that it repeats, so no call reaches it. The other two parts of the
  claim hold: \<open>os.system(cmd)\<close> gives one HIGH finding and \<open>shell=False\<close> gives none.
\<close>

theorem C8_shell_true_not_flagged:
  "check_shell_injection (tree_subprocess_run True) [] = []
   \<and> scan ''subprocess.run(cmd, shell=True)'' (tree_subprocess_run True) = []
   \<and> map (\<lambda>f. (severity f, lineno f, title f)) (scan ''os.system(cmd)'' tree_os_system)
       = [(HIGH, 1, ''Shell injection risk: os.system()'')]
   \<and> check_shell_injection (tree_subprocess_run False) [] = []"
  by (simp add: scan_shell_true scan_os_system scan_shell_false)

text \<open>
  The keyword loop of the shell rule is dead code: whatever the call, the step either
  reports \<open>os.system\<close> or leaves the findings as they are.
\<close>

lemma shell_injection_step_only_os_system:
  "shell_injection_step issues node = issues
   \<or> (\<exists>l. shell_injection_step issues node =
         add_issue issues HIGH ''Shell injection risk: os.system()''
           ''os.system() with user input can execute arbitrary commands'' l
           (''Use subprocess.run() with shell=False and argument list. ''
             @ ''Validate and sanitize all user input.''))"
  by (simp add: shell_injection_step_def split: node.split) blast

text \<open>
  C9, counterexample to the claim as stated: with \<open>import pickle as p\<close>, the call
  \<open>p.loads(data)\<close> is not reported.
\<close>

theorem C9_alias_counterexample:
  "check_unsafe_deserialization tree_pickle_alias [] = []
   \<and> scan src_pickle_alias tree_pickle_alias = []"
  by (rule scan_pickle_alias)

text \<open>
  C9 (as amended). For a call \<open><name>.loads(...)\<close> or \<open><name>.load(...)\<close> where \<open><name>\<close> is the
  identifier \<open>pickle\<close> itself, the step of the deserialization rule appends one HIGH
  finding at the line of the call; for any other identifier it appends nothing: the
  rule compares the identifier with \<open>pickle\<close> and resolves no import alias.
\<close>

theorem C9_pickle_by_name:
  assumes "attr \<in> set [''loads'', ''load'']"
  shows "(\<exists>d r. unsafe_deserialization_step issues
                  (Call p (Attribute q (Name r' ''pickle'' c) attr ctx) args keywords) =
            issues @ [\<lparr>severity = HIGH, title = ''Unsafe deserialization: pickle'',
                       description = d, lineno = fst p, recommendation = r\<rparr>])
         \<and> (ident \<noteq> ''pickle'' \<longrightarrow>
              unsafe_deserialization_step issues
                (Call p (Attribute q (Name r' ident c) attr ctx) args keywords) = issues)
         \<and> check_unsafe_deserialization t []
             = concat (map (unsafe_deserialization_step []) (walk t))"
  using assms
  by (auto simp: unsafe_deserialization_step_def add_issue_def check_unsafe_deserialization_emit)

text \<open>C9, witness: \<open>pickle.load(f)\<close> at line 3 is reported, \<open>p.load(f)\<close> is not.\<close>

theorem C9_pickle_by_name_witness:
  "map (\<lambda>f. (severity f, lineno f, title f))
     (unsafe_deserialization_step []
        (Call (3, 0) (Attribute (3, 0) (Name (3, 0) ''pickle'' load) ''load'' load)
           [Name (3, 12) ''f'' load] []))
     = [(HIGH, 3, ''Unsafe deserialization: pickle'')]
   \<and> unsafe_deserialization_step []
        (Call (3, 0) (Attribute (3, 0) (Name (3, 0) ''p'' load) ''load'' load)
           [Name (3, 7) ''f'' load] []) = []"
  using C9_pickle_by_name [of "''load''" "[]" "(3, 0)" "(3, 0)" "(3, 0)" load load
      "[Name (3, 12) ''f'' load]" "[]" "''p''" tree_eval_x]
    C9_pickle_by_name [of "''load''" "[]" "(3, 0)" "(3, 0)" "(3, 0)" load load
      "[Name (3, 7) ''f'' load]" "[]" "''p''" tree_eval_x]
  by auto

section \<open>Counts of the two traversals: proofs\<close>

lemma import_loop_keeps:
  "s_functions (foldl (\<lambda>s alias. case alias of (q, alias_name, alias_asname) \<Rightarrow>
       s\<lparr>s_imports := s_imports s @ [h alias_name alias_asname]\<rparr>) s names) = s_functions s
   \<and> s_classes (foldl (\<lambda>s alias. case alias of (q, alias_name, alias_asname) \<Rightarrow>
       s\<lparr>s_imports := s_imports s @ [h alias_name alias_asname]\<rparr>) s names) = s_classes s"
  by (induction names arbitrary: s) (simp_all split: prod.split)

lemma structure_step_functions:
  "length (s_functions (structure_step unparse s n))
     = length (s_functions s) + (if is_function_def n then 1 else 0)"
  by (simp add: structure_step_def is_function_def_def import_loop_keeps
      split: node.split)

lemma structure_step_classes:
  "length (s_classes (structure_step unparse s n))
     = length (s_classes s) + (if is_class_def n then 1 else 0)"
  by (simp add: structure_step_def is_class_def_def import_loop_keeps
      split: node.split)

lemma structure_loop_counts:
  "length (s_functions (foldl (structure_step unparse) s ns))
     = length (s_functions s) + length (filter is_function_def ns)
   \<and> length (s_classes (foldl (structure_step unparse) s ns))
     = length (s_classes s) + length (filter is_class_def ns)"
  by (induction ns arbitrary: s) (simp_all add: structure_step_functions structure_step_classes)

lemma metrics_step_counts:
  "function_count (metrics_step m n) = function_count m + (if is_function_def n then 1 else 0)
   \<and> class_count (metrics_step m n) = class_count m + (if is_class_def n then 1 else 0)"
  by (simp add: metrics_step_def is_function_def_def is_class_def_def split: node.split)

lemma metrics_loop_counts:
  "function_count (foldl metrics_step m ns) = function_count m + length (filter is_function_def ns)
   \<and> class_count (foldl metrics_step m ns) = class_count m + length (filter is_class_def ns)"
  by (induction ns arbitrary: m) (simp_all add: metrics_step_counts)

text \<open>
  C5. For an analyzer that holds a parsed tree, the structure report has a list of
  functions and a list of classes, and the metrics give the lengths of these two lists as
  \<open>function_count\<close> and \<open>class_count\<close>.
\<close>

theorem C5_counts_agree:
  assumes "tree self = Some t"
  shows "\<exists>fs cs.
           dict_get (get_structure unparse self) ''functions'' = Some (JList fs)
         \<and> dict_get (get_structure unparse self) ''classes'' = Some (JList cs)
         \<and> dict_get (get_metrics self) ''function_count'' = Some (JInt (int (length fs)))
         \<and> dict_get (get_metrics self) ''class_count'' = Some (JInt (int (length cs)))"
  using assms
  by (simp add: get_structure_def get_metrics_def dict_get_def Let_def
        structure_loop_counts metrics_loop_counts)

text \<open>C5, witness: a class with one method and a function: two functions, one class.\<close>

theorem C5_counts_agree_witness:
  "\<exists>fs cs.
     dict_get (get_structure no_unparse
        \<lparr>source_code = [], tree = Some tree_class_and_function, errors = []\<rparr>) ''functions''
       = Some (JList fs)
   \<and> dict_get (get_structure no_unparse
        \<lparr>source_code = [], tree = Some tree_class_and_function, errors = []\<rparr>) ''classes''
       = Some (JList cs)
   \<and> length fs = 2 \<and> length cs = 1"
proof -
  let ?a = "\<lparr>source_code = [], tree = Some tree_class_and_function, errors = []\<rparr>"
  have m: "dict_get (get_metrics ?a) ''function_count'' = Some (JInt 2)
           \<and> dict_get (get_metrics ?a) ''class_count'' = Some (JInt 1)"
    by code_simp
  from C5_counts_agree [of ?a tree_class_and_function no_unparse]
  obtain fs cs where
    "dict_get (get_structure no_unparse ?a) ''functions'' = Some (JList fs)"
    "dict_get (get_structure no_unparse ?a) ''classes'' = Some (JList cs)"
    "dict_get (get_metrics ?a) ''function_count'' = Some (JInt (int (length fs)))"
    "dict_get (get_metrics ?a) ''class_count'' = Some (JInt (int (length cs)))"
    by auto
  with m show ?thesis by auto
qed

section \<open>Nesting depth: proofs\<close>

lemma foldl_max:
  "foldl (\<lambda>m c. max m (g c)) (d::nat) cs = Max (insert d (g ` set cs))"
proof (induction cs arbitrary: d)
  case Nil
  show ?case by simp
next
  case (Cons c cs)
  have "foldl (\<lambda>m c. max m (g c)) d (c # cs) = Max (insert (max d (g c)) (g ` set cs))"
    using Cons.IH [of "max d (g c)"] by simp
  also have "\<dots> = Max (insert d (insert (g c) (g ` set cs)))"
    by (cases "cs = []") (simp_all add: max.assoc)
  finally show ?case by simp
qed

lemma Max_of_Max:
  fixes S :: "'a \<Rightarrow> nat set"
  assumes "finite C" and "\<And>c. c \<in> C \<Longrightarrow> finite (S c) \<and> S c \<noteq> {}"
  shows "Max (insert d ((\<lambda>c. Max (S c)) ` C)) = Max (insert d (\<Union>c\<in>C. S c))"
proof (rule antisym)
  have fin: "finite (insert d (\<Union>c\<in>C. S c))" using assms by auto
  show "Max (insert d ((\<lambda>c. Max (S c)) ` C)) \<le> Max (insert d (\<Union>c\<in>C. S c))"
  proof (rule Max.boundedI)
    fix a assume "a \<in> insert d ((\<lambda>c. Max (S c)) ` C)"
    then consider "a = d" | c where "c \<in> C" "a = Max (S c)" by auto
    then show "a \<le> Max (insert d (\<Union>c\<in>C. S c))"
    proof cases
      case 1
      then show ?thesis using fin by simp
    next
      case 2
      then have "a \<in> S c" using assms(2) [of c] Max_in by auto
      with 2 have "a \<in> insert d (\<Union>c\<in>C. S c)" by auto
      then show ?thesis using fin by (rule Max_ge [rotated])
    qed
  qed (use assms in auto)
next
  have fin: "finite (insert d ((\<lambda>c. Max (S c)) ` C))" using assms by auto
  show "Max (insert d (\<Union>c\<in>C. S c)) \<le> Max (insert d ((\<lambda>c. Max (S c)) ` C))"
  proof (rule Max.boundedI)
    fix a assume "a \<in> insert d (\<Union>c\<in>C. S c)"
    then consider "a = d" | c where "c \<in> C" "a \<in> S c" by auto
    then show "a \<le> Max (insert d ((\<lambda>c. Max (S c)) ` C))"
    proof cases
      case 1
      then show ?thesis using fin by simp
    next
      case 2
      then have "a \<le> Max (S c)" using assms(2) [of c] by simp
      moreover have "Max (S c) \<le> Max (insert d ((\<lambda>c. Max (S c)) ` C))"
        using fin 2(1) by (intro Max_ge) auto
      ultimately show ?thesis by simp
    qed
  qed (use assms in auto)
qed

lemma root_paths_head: "p \<in> set (root_paths n) \<Longrightarrow> p \<noteq> [] \<and> hd p = n"
  by (subst (asm) root_paths.simps) auto

lemma root_paths_nonempty: "root_paths n \<noteq> []"
  by (subst root_paths.simps) simp

lemma nesting_on_extended_path:
  assumes "p \<in> set (root_paths c)"
  shows "nesting_on_path (n # p) = nest_bit c + nesting_on_path p"
proof -
  from root_paths_head [OF assms] obtain q where "p = c # q" by (cases p) auto
  then show ?thesis by (simp add: nesting_on_path_def nest_bit_def)
qed

lemma root_paths_set:
  "set (root_paths n) = insert [n] (\<Union>c\<in>set (iter_child_nodes n). (#) n ` set (root_paths c))"
  by (subst root_paths.simps) auto

lemma path_depths_unfold:
  "set (map (\<lambda>p. d + nesting_on_path p) (root_paths n)) =
     insert d (\<Union>c\<in>set (iter_child_nodes n).
                 set (map (\<lambda>p. d + nest_bit c + nesting_on_path p) (root_paths c)))"
proof -
  have ext: "(\<lambda>p. d + nesting_on_path p) ` (#) n ` set (root_paths c)
               = (\<lambda>p. d + nest_bit c + nesting_on_path p) ` set (root_paths c)" for c
    unfolding image_image by (rule image_cong) (simp_all add: nesting_on_extended_path)
  have "set (map (\<lambda>p. d + nesting_on_path p) (root_paths n))
          = (\<lambda>p. d + nesting_on_path p) ` set (root_paths n)" by simp
  also have "\<dots> = insert (d + nesting_on_path [n])
               (\<Union>c\<in>set (iter_child_nodes n). (\<lambda>p. d + nesting_on_path p) ` (#) n ` set (root_paths c))"
    unfolding root_paths_set [of n] image_insert image_UN ..
  also have "\<dots> = insert d (\<Union>c\<in>set (iter_child_nodes n).
               (\<lambda>p. d + nest_bit c + nesting_on_path p) ` set (root_paths c))"
    unfolding ext by (simp add: nesting_on_path_def)
  finally show ?thesis by simp
qed

lemma calculate_max_depth_fold:
  "calculate_max_depth n d =
     foldl (\<lambda>m c. max m (calculate_max_depth c (d + nest_bit c))) d (iter_child_nodes n)"
proof -
  have "(\<lambda>max_depth child.
            if is_nesting child
            then max max_depth (calculate_max_depth child (d + 1))
            else max max_depth (calculate_max_depth child d))
        = (\<lambda>m c. max m (calculate_max_depth c (d + nest_bit c)))"
    by (intro ext) (simp add: nest_bit_def)
  then show ?thesis by (subst calculate_max_depth.simps) simp
qed

lemma calculate_max_depth_paths:
  "calculate_max_depth n d = Max (set (map (\<lambda>p. d + nesting_on_path p) (root_paths n)))"
proof (induction n arbitrary: d rule: measure_induct_rule [where f = msize])
  case (less n)
  let ?S = "\<lambda>c. set (map (\<lambda>p. d + nest_bit c + nesting_on_path p) (root_paths c))"
  have ih: "calculate_max_depth c (d + nest_bit c) = Max (?S c)"
    if "c \<in> set (iter_child_nodes n)" for c
    using less [OF child_msize [OF that]] .
  have "calculate_max_depth n d
          = Max (insert d ((\<lambda>c. calculate_max_depth c (d + nest_bit c)) ` set (iter_child_nodes n)))"
    by (subst calculate_max_depth_fold) (rule foldl_max)
  also have "(\<lambda>c. calculate_max_depth c (d + nest_bit c)) ` set (iter_child_nodes n)
               = (\<lambda>c. Max (?S c)) ` set (iter_child_nodes n)"
    using ih by (intro image_cong) auto
  also have "Max (insert d ((\<lambda>c. Max (?S c)) ` set (iter_child_nodes n)))
               = Max (insert d (\<Union>c\<in>set (iter_child_nodes n). ?S c))"
    by (rule Max_of_Max) (auto simp: root_paths_nonempty)
  also have "\<dots> = Max (set (map (\<lambda>p. d + nesting_on_path p) (root_paths n)))"
    by (rule arg_cong [where f = Max], rule path_depths_unfold [symmetric])
  finally show ?case .
qed

lemma path_ends_unfold:
  "path_ends n = insert n (\<Union>c\<in>set (iter_child_nodes n). path_ends c)"
proof -
  have "last ` (#) n ` set (root_paths c) = last ` set (root_paths c)" for c
    unfolding image_image by (rule image_cong) (auto dest: root_paths_head)
  then show ?thesis
    unfolding path_ends_def root_paths_set [of n] image_insert image_UN by simp
qed

lemma walk_queue_set: "set (walk_queue q) = (\<Union>n\<in>set q. path_ends n)"
proof (induction q rule: walk_queue.induct)
  case 1
  show ?case by simp
next
  case (2 node todo)
  then show ?case by (auto simp: path_ends_unfold [of node])
qed

lemma walk_set: "set (walk t) = path_ends t"
  by (simp add: walk_def walk_queue_set del: walk_queue.simps)

lemma path_nodes_visited: "p \<in> set (root_paths n) \<Longrightarrow> set p \<subseteq> path_ends n"
proof (induction n arbitrary: p rule: measure_induct_rule [where f = msize])
  case (less n)
  from less.prems consider "p = [n]"
    | c q where "c \<in> set (iter_child_nodes n)" "q \<in> set (root_paths c)" "p = n # q"
    unfolding root_paths_set [of n] by auto
  then show ?case
  proof cases
    case 1
    then show ?thesis by (simp add: path_ends_unfold [of n])
  next
    case 2
    from less.IH [OF child_msize [OF 2(1)] 2(2)] have "set q \<subseteq> path_ends c" .
    with 2 show ?thesis by (auto simp: path_ends_unfold [of n])
  qed
qed

text \<open>
  C6. The nesting depth of a tree is the maximum, over the paths from the root to a
  node, of the number of nodes of kind If, For, While, With, Try, FunctionDef or ClassDef
  met below the root on the path; the root of a parsed tree is a Module, which is none of
  them, and then the number is the same with the root counted. At each node the walk
  passes on the depth plus one to a child of one of these kinds and the depth unchanged
  to any other child. A tree without a node of these kinds has depth 0.
\<close>

theorem C6_max_nesting_depth:
  "calculate_max_depth t 0 = Max (set (map nesting_on_path (root_paths t)))
   \<and> (\<not> is_nesting t \<longrightarrow>
        calculate_max_depth t 0
          = Max (set (map (\<lambda>p. length (filter is_nesting p)) (root_paths t))))
   \<and> calculate_max_depth t d
        = Max (insert d ((\<lambda>c. calculate_max_depth c (if is_nesting c then d + 1 else d))
                          ` set (iter_child_nodes t)))
   \<and> ((\<forall>n \<in> set (walk t). \<not> is_nesting n) \<longrightarrow> calculate_max_depth t 0 = 0)"
proof (intro conjI impI)
  show main: "calculate_max_depth t 0 = Max (set (map nesting_on_path (root_paths t)))"
    using calculate_max_depth_paths [of t 0] by simp
  show "calculate_max_depth t d
          = Max (insert d ((\<lambda>c. calculate_max_depth c (if is_nesting c then d + 1 else d))
                            ` set (iter_child_nodes t)))"
  proof -
    have "(\<lambda>c. calculate_max_depth c (d + nest_bit c))
            = (\<lambda>c. calculate_max_depth c (if is_nesting c then d + 1 else d))"
      by (rule ext) (simp add: nest_bit_def)
    then show ?thesis
      using foldl_max [of "\<lambda>c. calculate_max_depth c (d + nest_bit c)" d "iter_child_nodes t"]
        calculate_max_depth_fold [of t d]
      by (simp only:)
  qed
  {
    assume root: "\<not> is_nesting t"
    have "map (\<lambda>p. length (filter is_nesting p)) (root_paths t) = map nesting_on_path (root_paths t)"
    proof (rule map_cong [OF refl])
      fix p assume "p \<in> set (root_paths t)"
      from root_paths_head [OF this] obtain q where "p = t # q" by (cases p) auto
      with root show "length (filter is_nesting p) = nesting_on_path p"
        by (simp add: nesting_on_path_def)
    qed
    with main show "calculate_max_depth t 0
        = Max (set (map (\<lambda>p. length (filter is_nesting p)) (root_paths t)))"
      by simp
  }
  {
    assume none: "\<forall>n \<in> set (walk t). \<not> is_nesting n"
    have "map nesting_on_path (root_paths t) = map (\<lambda>p. 0) (root_paths t)"
    proof (rule map_cong [OF refl])
      fix p assume p: "p \<in> set (root_paths t)"
      have "set (tl p) \<subseteq> set p" by (cases p) auto
      with path_nodes_visited [OF p] none have "\<forall>n \<in> set (tl p). \<not> is_nesting n"
        by (auto simp: walk_set)
      then show "nesting_on_path p = 0" by (simp add: nesting_on_path_def filter_empty_conv)
    qed
    with main have "calculate_max_depth t 0 = Max (set (map (\<lambda>p. 0::nat) (root_paths t)))"
      by simp
    also have "set (map (\<lambda>p. 0::nat) (root_paths t)) = {0}"
      using root_paths_nonempty [of t] by (cases "root_paths t") auto
    finally show "calculate_max_depth t 0 = 0" by simp
  }
qed

text \<open>
  C6, witness: a function that holds an \<open>if\<close> that holds a \<open>for\<close> has depth 3, and the
  program \<open>eval(x)\<close>, with no such node, has depth 0.
\<close>

theorem C6_max_nesting_depth_witness:
  "Max (set (map (\<lambda>p. length (filter is_nesting p)) (root_paths tree_nested))) = 3
   \<and> calculate_max_depth tree_nested 0 = 3
   \<and> calculate_max_depth tree_eval_x 0 = 0"
proof -
  have a: "calculate_max_depth tree_nested 0 = 3" by code_simp
  have b: "\<not> is_nesting tree_nested" by code_simp
  have c: "\<forall>n \<in> set (walk tree_eval_x). \<not> is_nesting n" by code_simp
  from C6_max_nesting_depth [of tree_nested 0] a b C6_max_nesting_depth [of tree_eval_x 0] c
  show ?thesis by simp
qed

end
